theory Spec2Isabelle
  imports Main "HOL-Library.Sublist"
begin

section \<open>Strings\<close>

text \<open>
  JavaScript strings are modelled as \<open>string\<close>: a character stands for one code unit,
  and the code units covered are those below 256. The helpers below are the string
  primitives the sources rely on:
  \<open>Array.prototype.join\<close>, the decimal rendering of a non-negative integer inside a
  template literal, the character class \<open>\s\<close>, \<open>String.prototype.trim\<close> and
  \<open>String.prototype.split("\n")\<close>.
\<close>

definition newline :: char where
  "newline = CHR 0x0A"

text \<open>The members of \<open>\s\<close> (tab, line feed, vertical tab, form feed, carriage return,
  space, no-break space) among the code units a \<open>char\<close> can hold.\<close>

definition is_space :: "char \<Rightarrow> bool" where
  "is_space c = (c \<in> set [CHR 0x09, CHR 0x0A, CHR 0x0B, CHR 0x0C, CHR 0x0D, CHR 0x20, CHR 0xA0])"

definition is_digit :: "char \<Rightarrow> bool" where
  "is_digit c = (48 \<le> (of_char c :: nat) \<and> (of_char c :: nat) \<le> 57)"

fun join :: "string \<Rightarrow> string list \<Rightarrow> string" where
  "join sep [] = []"
| "join sep [x] = x"
| "join sep (x # y # ys) = x @ sep @ join sep (y # ys)"

definition digit_char :: "nat \<Rightarrow> char" where
  "digit_char d = char_of (48 + d)"

fun show_nat :: "nat \<Rightarrow> string" where
  "show_nat n = (if n < 10 then [digit_char n] else show_nat (n div 10) @ [digit_char (n mod 10)])"

declare show_nat.simps [simp del]

text \<open>\<open>text.replace(/\s+/g, " ")\<close>: every maximal run of white space becomes one space.\<close>

function collapse_spaces :: "string \<Rightarrow> string" where
  "collapse_spaces [] = []"
| "collapse_spaces (c # cs) =
     (if is_space c then CHR 0x20 # collapse_spaces (dropWhile is_space cs)
      else c # collapse_spaces cs)"
  by pat_completeness auto
termination
  by (relation "measure length") (auto simp: less_Suc_eq_le length_dropWhile_le)

definition trim :: "string \<Rightarrow> string" where
  "trim s = rev (dropWhile is_space (rev (dropWhile is_space s)))"

fun split_lines :: "string \<Rightarrow> string list" where
  "split_lines [] = [ [] ]"
| "split_lines (c # cs) =
     (if c = newline then [] # split_lines cs
      else (case split_lines cs of [] \<Rightarrow> [ [c] ] | l # ls \<Rightarrow> (c # l) # ls))"

text \<open>\<open>haystack.includes(needle)\<close>.\<close>

fun str_includes :: "string \<Rightarrow> string \<Rightarrow> bool" where
  "str_includes [] needle = (needle = [])"
| "str_includes (c # cs) needle = (prefix needle (c # cs) \<or> str_includes cs needle)"

section \<open>JSON values and \<open>JSON.stringify(value, null, 2)\<close>\<close>

text \<open>
  A JSON value as the handlers see it after the body has been parsed. An object is the
  list of its properties in insertion order; reading a property is \<open>map_of\<close>, and an
  absent property (\<open>undefined\<close>) is \<open>None\<close>. Numbers are carried as integers: the
  program never computes with a number it received, it only tests the type and echoes
  request ids.
\<close>

datatype json =
    JNull
  | JBool bool
  | JNum int
  | JStr string
  | JArr "json list"
  | JObj "(string \<times> json) list"

definition hex_digit :: "nat \<Rightarrow> char" where
  "hex_digit d = (''0123456789abcdef'') ! (d mod 16)"

text \<open>\<open>QuoteJSONString\<close>: the two-character escapes, \<open>\u00XX\<close> for the other control
  characters, every other code unit as it is.\<close>

definition quote_char :: "char \<Rightarrow> string" where
  "quote_char c =
     (if c = CHR 0x22 then [CHR 0x5C, CHR 0x22]
      else if c = CHR 0x5C then [CHR 0x5C, CHR 0x5C]
      else if c = CHR 0x08 then [CHR 0x5C, CHR ''b'']
      else if c = CHR 0x09 then [CHR 0x5C, CHR ''t'']
      else if c = CHR 0x0A then [CHR 0x5C, CHR ''n'']
      else if c = CHR 0x0C then [CHR 0x5C, CHR ''f'']
      else if c = CHR 0x0D then [CHR 0x5C, CHR ''r'']
      else if (of_char c :: nat) < 32
        then [CHR 0x5C, CHR ''u'', CHR ''0'', CHR ''0'',
              hex_digit (of_char c div 16), hex_digit (of_char c mod 16)]
      else [c])"

definition QuoteJSONString :: "string \<Rightarrow> string" where
  "QuoteJSONString s = [CHR 0x22] @ concat (map quote_char s) @ [CHR 0x22]"

text \<open>The decimal rendering of an integer (JavaScript prints integers below \<open>10^21\<close>
  this way; the only number the program prints is the uptime in seconds).\<close>

definition show_int :: "int \<Rightarrow> string" where
  "show_int i = (if i < 0 then ''-'' @ show_nat (nat (- i)) else show_nat (nat i))"

text \<open>\<open>SerializeJSONProperty\<close> with the gap of two spaces; the first argument is the
  current indentation.\<close>

fun serialize :: "string \<Rightarrow> json \<Rightarrow> string" where
  "serialize ind JNull = ''null''"
| "serialize ind (JBool b) = (if b then ''true'' else ''false'')"
| "serialize ind (JNum n) = show_int n"
| "serialize ind (JStr s) = QuoteJSONString s"
| "serialize ind (JArr xs) =
     (if xs = [] then ''[]''
      else ''['' @ [newline] @ (ind @ ''  '')
           @ join ('','' @ [newline] @ (ind @ ''  '')) (map (serialize (ind @ ''  '')) xs)
           @ [newline] @ ind @ '']'')"
| "serialize ind (JObj ms) =
     (if ms = [] then ''{}''
      else ''{'' @ [newline] @ (ind @ ''  '')
           @ join ('','' @ [newline] @ (ind @ ''  ''))
               (map (\<lambda>(k, v). QuoteJSONString k @ '': '' @ serialize (ind @ ''  '') v) ms)
           @ [newline] @ ind @ ''}'')"

definition JSON_stringify :: "json \<Rightarrow> string" where
  "JSON_stringify v = serialize [] v"

section \<open>\<open>JSON.parse\<close>\<close>

text \<open>
  The grammar of JSON texts, read by recursive descent. White space is space, tab, line
  feed and carriage return. A string may hold any code unit from \<open>0x20\<close> on except the
  quote and the backslash, and the escapes \<open>\" \\ \/ \b \f \n \r \t \uXXXX\<close>. Two limits
  come from the representation of values: a \<open>\uXXXX\<close> escape of a code unit that a
  \<open>char\<close> cannot hold, and a number with a fraction or an exponent, are not read
  (\<open>None\<close>). The functions that descend into arrays and objects take a bound on the
  number of steps; \<open>JSON_parse\<close> gives them the length of the text.
\<close>

definition is_json_ws :: "char \<Rightarrow> bool" where
  "is_json_ws c = (c \<in> set [CHR 0x20, CHR 0x09, CHR 0x0A, CHR 0x0D])"

definition skip_ws :: "string \<Rightarrow> string" where
  "skip_ws s = dropWhile is_json_ws s"

definition hex_value :: "char \<Rightarrow> nat option" where
  "hex_value c =
     (let n = (of_char c :: nat)
      in if 48 \<le> n \<and> n \<le> 57 then Some (n - 48)
         else if 97 \<le> n \<and> n \<le> 102 then Some (n - 87)
         else if 65 \<le> n \<and> n \<le> 70 then Some (n - 55)
         else None)"

definition hex4 :: "char \<Rightarrow> char \<Rightarrow> char \<Rightarrow> char \<Rightarrow> nat option" where
  "hex4 a b c d =
     (case (hex_value a, hex_value b, hex_value c, hex_value d) of
        (Some x, Some y, Some z, Some u) \<Rightarrow> Some (((x * 16 + y) * 16 + z) * 16 + u)
      | _ \<Rightarrow> None)"

definition unescape :: "char \<Rightarrow> char option" where
  "unescape e =
     (if e = CHR 0x22 then Some (CHR 0x22)
      else if e = CHR 0x5C then Some (CHR 0x5C)
      else if e = CHR ''/'' then Some (CHR ''/'')
      else if e = CHR ''b'' then Some (CHR 0x08)
      else if e = CHR ''f'' then Some (CHR 0x0C)
      else if e = CHR ''n'' then Some (CHR 0x0A)
      else if e = CHR ''r'' then Some (CHR 0x0D)
      else if e = CHR ''t'' then Some (CHR 0x09)
      else None)"

text \<open>The characters of a string after its opening quote, up to the closing quote.\<close>

fun parse_chars :: "string \<Rightarrow> (string \<times> string) option" where
  "parse_chars [] = None"
| "parse_chars (c # cs) =
     (if c = CHR 0x22 then Some ([], cs)
      else if c = CHR 0x5C then
        (case cs of
           [] \<Rightarrow> None
         | e # cs1 \<Rightarrow>
             if e = CHR ''u'' then
               (case cs1 of
                  h1 # h2 # h3 # h4 # cs2 \<Rightarrow>
                    (case hex4 h1 h2 h3 h4 of
                       None \<Rightarrow> None
                     | Some n \<Rightarrow>
                         if n < 256
                         then (case parse_chars cs2 of
                                 None \<Rightarrow> None
                               | Some (s, r) \<Rightarrow> Some (char_of n # s, r))
                         else None)
                | _ \<Rightarrow> None)
             else
               (case unescape e of
                  None \<Rightarrow> None
                | Some ch \<Rightarrow>
                    (case parse_chars cs1 of
                       None \<Rightarrow> None
                     | Some (s, r) \<Rightarrow> Some (ch # s, r))))
      else if (of_char c :: nat) < 32 then None
      else (case parse_chars cs of None \<Rightarrow> None | Some (s, r) \<Rightarrow> Some (c # s, r)))"

fun parse_digits :: "nat \<Rightarrow> string \<Rightarrow> nat \<times> string" where
  "parse_digits acc [] = (acc, [])"
| "parse_digits acc (c # cs) =
     (if is_digit c then parse_digits (10 * acc + (of_char c - 48)) cs else (acc, c # cs))"

text \<open>An integer without leading zeros, not followed by a fraction or an exponent.\<close>

definition parse_number :: "string \<Rightarrow> (int \<times> string) option" where
  "parse_number s =
     (let negative = (s \<noteq> [] \<and> hd s = CHR ''-'');
          ds = (if negative then tl s else s)
      in case ds of
           [] \<Rightarrow> None
         | d # ds1 \<Rightarrow>
             if \<not> is_digit d then None
             else
               (let (n, r) = (if d = CHR ''0'' then (0, ds1) else parse_digits 0 ds);
                    bad = (r \<noteq> [] \<and> (is_digit (hd r)
                             \<or> hd r \<in> set [CHR ''.'', CHR ''e'', CHR ''E'']))
                in if bad then None else Some (if negative then - int n else int n, r)))"

text \<open>Defining a property: a key that is already there keeps its place and takes the new
  value, a new key goes to the end.\<close>

fun set_property :: "(string \<times> json) list \<Rightarrow> string \<times> json \<Rightarrow> (string \<times> json) list" where
  "set_property [] kv = [kv]"
| "set_property ((k, v) # ms) kv =
     (if k = fst kv then (k, snd kv) # ms else (k, v) # set_property ms kv)"

fun parse_value :: "nat \<Rightarrow> string \<Rightarrow> (json \<times> string) option"
  and parse_elements :: "nat \<Rightarrow> string \<Rightarrow> (json list \<times> string) option"
  and parse_members :: "nat \<Rightarrow> string \<Rightarrow> ((string \<times> json) list \<times> string) option"
where
  "parse_value 0 s = None"
| "parse_value (Suc n) [] = None"
| "parse_value (Suc n) (c # cs) =
     (if c = CHR 0x22 then
        (case parse_chars cs of None \<Rightarrow> None | Some (s, r) \<Rightarrow> Some (JStr s, r))
      else if c = CHR ''['' then
        (case skip_ws cs of
           [] \<Rightarrow> None
         | d # r \<Rightarrow>
             if d = CHR '']'' then Some (JArr [], r)
             else (case parse_elements n (d # r) of
                     None \<Rightarrow> None
                   | Some (xs, r1) \<Rightarrow> Some (JArr xs, r1)))
      else if c = CHR ''{'' then
        (case skip_ws cs of
           [] \<Rightarrow> None
         | d # r \<Rightarrow>
             if d = CHR ''}'' then Some (JObj [], r)
             else (case parse_members n (d # r) of
                     None \<Rightarrow> None
                   | Some (ms, r1) \<Rightarrow> Some (JObj (foldl set_property [] ms), r1)))
      else if prefix ''true'' (c # cs) then Some (JBool True, drop 4 (c # cs))
      else if prefix ''false'' (c # cs) then Some (JBool False, drop 5 (c # cs))
      else if prefix ''null'' (c # cs) then Some (JNull, drop 4 (c # cs))
      else (case parse_number (c # cs) of None \<Rightarrow> None | Some (i, r) \<Rightarrow> Some (JNum i, r)))"
| "parse_elements 0 s = None"
| "parse_elements (Suc n) s =
     (case parse_value n s of
        None \<Rightarrow> None
      | Some (x, r) \<Rightarrow>
          (case skip_ws r of
             [] \<Rightarrow> None
           | d # r1 \<Rightarrow>
               if d = CHR '','' then
                 (case parse_elements n (skip_ws r1) of
                    None \<Rightarrow> None
                  | Some (xs, r2) \<Rightarrow> Some (x # xs, r2))
               else if d = CHR '']'' then Some ([x], r1)
               else None))"
| "parse_members 0 s = None"
| "parse_members (Suc n) s =
     (case s of
        [] \<Rightarrow> None
      | q # cs \<Rightarrow>
          if q \<noteq> CHR 0x22 then None
          else
            (case parse_chars cs of
               None \<Rightarrow> None
             | Some (k, r) \<Rightarrow>
                 (case skip_ws r of
                    [] \<Rightarrow> None
                  | d # r1 \<Rightarrow>
                      if d \<noteq> CHR '':'' then None
                      else
                        (case parse_value n (skip_ws r1) of
                           None \<Rightarrow> None
                         | Some (v, r2) \<Rightarrow>
                             (case skip_ws r2 of
                                [] \<Rightarrow> None
                              | e # r3 \<Rightarrow>
                                  if e = CHR '','' then
                                    (case parse_members n (skip_ws r3) of
                                       None \<Rightarrow> None
                                     | Some (ms, r4) \<Rightarrow> Some ((k, v) # ms, r4))
                                  else if e = CHR ''}'' then Some ([(k, v)], r3)
                                  else None)))))"

definition JSON_parse :: "string \<Rightarrow> json option" where
  "JSON_parse text =
     (case parse_value (length text) (skip_ws text) of
        None \<Rightarrow> None
      | Some (v, r) \<Rightarrow> if skip_ws r = [] then Some v else None)"

section \<open>The validated request (\<open>SummarizeInput\<close> in \<open>lib/schema.ts\<close>)\<close>

datatype status = Open | Done
datatype severity = Low | Med | High
datatype evidence_type = Conversation | Canvas
datatype output_format = Exec_bullets | Se_deal_update | Memo

record open_question =
  oq_question :: string
  oq_owner :: "string option"
  oq_due :: "string option"

record next_step =
  ns_action :: string
  ns_owner :: "string option"
  ns_due :: "string option"
  ns_status :: status

record risk_item =
  rk_risk :: string
  rk_severity :: severity
  rk_mitigation :: "string option"

record stakeholder =
  sh_name :: string
  sh_role :: "string option"
  sh_influence :: "string option"

record evidence_item =
  ev_type :: evidence_type
  ev_pointer :: string
  ev_excerpt :: string

record Context =
  summary :: string
  key_points :: "string list"
  open_questions :: "open_question list"
  next_steps :: "next_step list"
  risks :: "risk_item list"
  stakeholders :: "stakeholder list"
  evidence :: "evidence_item list"
  last_updated :: "string option"

record SummarizeInput =
  deal_id :: "string option"
  deal_name :: "string option"
  source_canvas_name :: "string option"
  ctx :: Context
  output_format :: output_format
  doc_title :: "string option"

fun status_str :: "status \<Rightarrow> string" where
  "status_str Open = ''open''"
| "status_str Done = ''done''"

fun severity_str :: "severity \<Rightarrow> string" where
  "severity_str Low = ''low''"
| "severity_str Med = ''med''"
| "severity_str High = ''high''"

fun evidence_type_str :: "evidence_type \<Rightarrow> string" where
  "evidence_type_str Conversation = ''conversation''"
| "evidence_type_str Canvas = ''canvas''"

fun output_format_str :: "output_format \<Rightarrow> string" where
  "output_format_str Exec_bullets = ''exec_bullets''"
| "output_format_str Se_deal_update = ''se_deal_update''"
| "output_format_str Memo = ''memo''"

text \<open>
  The JavaScript object a validated request is: the properties appear in the order of the
  schema, and an optional property that was not supplied is absent (not \<open>null\<close>).
\<close>

definition opt_prop :: "string \<Rightarrow> string option \<Rightarrow> (string \<times> json) list" where
  "opt_prop k v = (case v of None \<Rightarrow> [] | Some s \<Rightarrow> [(k, JStr s)])"

definition open_question_json :: "open_question \<Rightarrow> json" where
  "open_question_json q =
     JObj ([(''question'', JStr (oq_question q))]
           @ opt_prop ''owner'' (oq_owner q) @ opt_prop ''due'' (oq_due q))"

definition next_step_json :: "next_step \<Rightarrow> json" where
  "next_step_json n =
     JObj ([(''action'', JStr (ns_action n))]
           @ opt_prop ''owner'' (ns_owner n) @ opt_prop ''due'' (ns_due n)
           @ [(''status'', JStr (status_str (ns_status n)))])"

definition risk_json :: "risk_item \<Rightarrow> json" where
  "risk_json r =
     JObj ([(''risk'', JStr (rk_risk r)), (''severity'', JStr (severity_str (rk_severity r)))]
           @ opt_prop ''mitigation'' (rk_mitigation r))"

definition stakeholder_json :: "stakeholder \<Rightarrow> json" where
  "stakeholder_json h =
     JObj ([(''name'', JStr (sh_name h))]
           @ opt_prop ''role'' (sh_role h) @ opt_prop ''influence'' (sh_influence h))"

definition evidence_json :: "evidence_item \<Rightarrow> json" where
  "evidence_json e =
     JObj [(''type'', JStr (evidence_type_str (ev_type e))),
           (''pointer'', JStr (ev_pointer e)), (''excerpt'', JStr (ev_excerpt e))]"

definition context_json :: "Context \<Rightarrow> json" where
  "context_json c =
     JObj ([(''summary'', JStr (summary c)),
            (''key_points'', JArr (map JStr (key_points c))),
            (''open_questions'', JArr (map open_question_json (open_questions c))),
            (''next_steps'', JArr (map next_step_json (next_steps c))),
            (''risks'', JArr (map risk_json (risks c))),
            (''stakeholders'', JArr (map stakeholder_json (stakeholders c))),
            (''evidence'', JArr (map evidence_json (evidence c)))]
           @ opt_prop ''last_updated'' (last_updated c))"

definition input_json :: "SummarizeInput \<Rightarrow> json" where
  "input_json i =
     JObj (opt_prop ''deal_id'' (deal_id i) @ opt_prop ''deal_name'' (deal_name i)
           @ opt_prop ''source_canvas_name'' (source_canvas_name i)
           @ [(''context'', context_json (ctx i)),
              (''output_format'', JStr (output_format_str (output_format i)))]
           @ opt_prop ''doc_title'' (doc_title i))"

section \<open>The validator (\<open>lib/schema.ts\<close>)\<close>

text \<open>
  The schemas are built from the combinators of the zod library (version 3, whose
  \<open>ZodError\<close> offers \<open>error.errors\<close>). A schema takes the path of the value and the
  value itself (\<open>None\<close> for \<open>undefined\<close>) and returns either the parsed value or the
  issues it raised. The messages are those of zod's default error map. As in zod, an
  object schema parses every declared property, in the order of its shape, before it
  merges the outcomes, so the issues of all properties are reported; properties that are
  not declared are not looked at (zod's default for \<open>z.object\<close>, which none of the schemas
  changes).
\<close>

datatype path_elem = Key string | Index nat

record issue =
  path :: "path_elem list"
  message :: string

type_synonym 'a parsed = "issue list + 'a"
type_synonym 'a schema = "path_elem list \<Rightarrow> json option \<Rightarrow> 'a parsed"

definition getParsedType :: "json option \<Rightarrow> string" where
  "getParsedType v =
     (case v of
        None \<Rightarrow> ''undefined''
      | Some JNull \<Rightarrow> ''null''
      | Some (JBool b) \<Rightarrow> ''boolean''
      | Some (JNum n) \<Rightarrow> ''number''
      | Some (JStr s) \<Rightarrow> ''string''
      | Some (JArr xs) \<Rightarrow> ''array''
      | Some (JObj ms) \<Rightarrow> ''object'')"

definition invalid_type :: "path_elem list \<Rightarrow> string \<Rightarrow> json option \<Rightarrow> issue" where
  "invalid_type p expected v =
     \<lparr>path = p,
      message = (if v = None then ''Required''
                 else ''Expected '' @ expected @ '', received '' @ getParsedType v)\<rparr>"

definition issues_of :: "'a parsed \<Rightarrow> issue list" where
  "issues_of r = (case r of Inl is \<Rightarrow> is | Inr x \<Rightarrow> [])"

text \<open>Merging two parsed properties: valid only if both are, with the issues in order.\<close>

fun both :: "'a parsed \<Rightarrow> 'b parsed \<Rightarrow> ('a \<times> 'b) parsed" where
  "both (Inr a) (Inr b) = Inr (a, b)"
| "both ra rb = Inl (issues_of ra @ issues_of rb)"

fun collect :: "'a parsed list \<Rightarrow> 'a list parsed" where
  "collect [] = Inr []"
| "collect (r # rs) =
     (case both r (collect rs) of Inl is \<Rightarrow> Inl is | Inr (x, xs) \<Rightarrow> Inr (x # xs))"

definition optional :: "'a schema \<Rightarrow> 'a option schema" where
  "optional inner p v =
     (case v of
        None \<Rightarrow> Inr None
      | Some x \<Rightarrow> (case inner p v of Inl is \<Rightarrow> Inl is | Inr y \<Rightarrow> Inr (Some y)))"

definition z_default :: "json \<Rightarrow> 'a schema \<Rightarrow> 'a schema" where
  "z_default d inner p v = inner p (case v of None \<Rightarrow> Some d | Some x \<Rightarrow> Some x)"

definition z_array :: "'a schema \<Rightarrow> 'a list schema" where
  "z_array elem p v =
     (case v of
        Some (JArr xs) \<Rightarrow> collect (map (\<lambda>(i, x). elem (p @ [Index i]) (Some x)) (enumerate 0 xs))
      | _ \<Rightarrow> Inl [invalid_type p ''array'' v])"

text \<open>\<open>z.array(elem).optional().default([])\<close>. The default replaces \<open>undefined\<close> before the
  optional layer sees the value, so the result is always a list.\<close>

definition array_with_default :: "'a schema \<Rightarrow> 'a list schema" where
  "array_with_default elem p v =
     (case z_default (JArr []) (optional (z_array elem)) p v of
        Inl is \<Rightarrow> Inl is
      | Inr None \<Rightarrow> Inr []
      | Inr (Some xs) \<Rightarrow> Inr xs)"

definition joinValues :: "string list \<Rightarrow> string" where
  "joinValues vs = join '' | '' (map (\<lambda>v. [CHR 0x27] @ v @ [CHR 0x27]) vs)"

definition z_enum :: "(string \<times> 'a) list \<Rightarrow> 'a schema" where
  "z_enum options p v =
     (case v of
        Some (JStr s) \<Rightarrow>
          (case map_of options s of
             Some x \<Rightarrow> Inr x
           | None \<Rightarrow>
               Inl [\<lparr>path = p,
                     message = ''Invalid enum value. Expected '' @ joinValues (map fst options)
                               @ '', received '' @ [CHR 0x27] @ s @ [CHR 0x27]\<rparr>])
      | _ \<Rightarrow> Inl [invalid_type p (joinValues (map fst options)) v])"

text \<open>\<open>const trimmedString = z.string().min(1)\<close>\<close>

definition trimmedString :: "string schema" where
  "trimmedString p v =
     (case v of
        Some (JStr s) \<Rightarrow>
          if length s < 1
          then Inl [\<lparr>path = p, message = ''String must contain at least 1 character(s)''\<rparr>]
          else Inr s
      | _ \<Rightarrow> Inl [invalid_type p ''string'' v])"

text \<open>The regular expression \<open>/^\d{4}-\d{2}-\d{2}$/\<close>.\<close>

definition matches_date :: "string \<Rightarrow> bool" where
  "matches_date s =
     (length s = 10 \<and> list_all (\<lambda>i. is_digit (s ! i)) [0, 1, 2, 3, 5, 6, 8, 9]
      \<and> s ! 4 = CHR ''-'' \<and> s ! 7 = CHR ''-'')"

definition dateString :: "string schema" where
  "dateString p v =
     (case v of
        Some (JStr s) \<Rightarrow>
          if matches_date s then Inr s else Inl [\<lparr>path = p, message = ''Use YYYY-MM-DD''\<rparr>]
      | _ \<Rightarrow> Inl [invalid_type p ''string'' v])"

definition openQuestionSchema :: "open_question schema" where
  "openQuestionSchema p v =
     (case v of
        Some (JObj props) \<Rightarrow>
          (case both (trimmedString (p @ [Key ''question'']) (map_of props ''question''))
               (both (optional trimmedString (p @ [Key ''owner'']) (map_of props ''owner''))
                     (optional trimmedString (p @ [Key ''due'']) (map_of props ''due''))) of
             Inl is \<Rightarrow> Inl is
           | Inr (q, ow, d) \<Rightarrow> Inr \<lparr>oq_question = q, oq_owner = ow, oq_due = d\<rparr>)
      | _ \<Rightarrow> Inl [invalid_type p ''object'' v])"

definition nextStepSchema :: "next_step schema" where
  "nextStepSchema p v =
     (case v of
        Some (JObj props) \<Rightarrow>
          (case both (trimmedString (p @ [Key ''action'']) (map_of props ''action''))
               (both (optional trimmedString (p @ [Key ''owner'']) (map_of props ''owner''))
               (both (optional trimmedString (p @ [Key ''due'']) (map_of props ''due''))
                     (z_enum [(''open'', Open), (''done'', Done)]
                        (p @ [Key ''status'']) (map_of props ''status'')))) of
             Inl is \<Rightarrow> Inl is
           | Inr (a, ow, d, st) \<Rightarrow>
               Inr \<lparr>ns_action = a, ns_owner = ow, ns_due = d, ns_status = st\<rparr>)
      | _ \<Rightarrow> Inl [invalid_type p ''object'' v])"

definition riskSchema :: "risk_item schema" where
  "riskSchema p v =
     (case v of
        Some (JObj props) \<Rightarrow>
          (case both (trimmedString (p @ [Key ''risk'']) (map_of props ''risk''))
               (both (z_enum [(''low'', Low), (''med'', Med), (''high'', High)]
                        (p @ [Key ''severity'']) (map_of props ''severity''))
                     (optional trimmedString (p @ [Key ''mitigation''])
                        (map_of props ''mitigation''))) of
             Inl is \<Rightarrow> Inl is
           | Inr (r, sv, m) \<Rightarrow> Inr \<lparr>rk_risk = r, rk_severity = sv, rk_mitigation = m\<rparr>)
      | _ \<Rightarrow> Inl [invalid_type p ''object'' v])"

definition stakeholderSchema :: "stakeholder schema" where
  "stakeholderSchema p v =
     (case v of
        Some (JObj props) \<Rightarrow>
          (case both (trimmedString (p @ [Key ''name'']) (map_of props ''name''))
               (both (optional trimmedString (p @ [Key ''role'']) (map_of props ''role''))
                     (optional trimmedString (p @ [Key ''influence''])
                        (map_of props ''influence''))) of
             Inl is \<Rightarrow> Inl is
           | Inr (n, r, i) \<Rightarrow> Inr \<lparr>sh_name = n, sh_role = r, sh_influence = i\<rparr>)
      | _ \<Rightarrow> Inl [invalid_type p ''object'' v])"

definition evidenceSchema :: "evidence_item schema" where
  "evidenceSchema p v =
     (case v of
        Some (JObj props) \<Rightarrow>
          (case both (z_enum [(''conversation'', Conversation), (''canvas'', Canvas)]
                        (p @ [Key ''type'']) (map_of props ''type''))
               (both (trimmedString (p @ [Key ''pointer'']) (map_of props ''pointer''))
                     (trimmedString (p @ [Key ''excerpt'']) (map_of props ''excerpt''))) of
             Inl is \<Rightarrow> Inl is
           | Inr (t, pt, ex) \<Rightarrow> Inr \<lparr>ev_type = t, ev_pointer = pt, ev_excerpt = ex\<rparr>)
      | _ \<Rightarrow> Inl [invalid_type p ''object'' v])"

definition contextSchema :: "Context schema" where
  "contextSchema p v =
     (case v of
        Some (JObj props) \<Rightarrow>
          (case both (trimmedString (p @ [Key ''summary'']) (map_of props ''summary''))
               (both (array_with_default trimmedString
                        (p @ [Key ''key_points'']) (map_of props ''key_points''))
               (both (array_with_default openQuestionSchema
                        (p @ [Key ''open_questions'']) (map_of props ''open_questions''))
               (both (array_with_default nextStepSchema
                        (p @ [Key ''next_steps'']) (map_of props ''next_steps''))
               (both (array_with_default riskSchema
                        (p @ [Key ''risks'']) (map_of props ''risks''))
               (both (array_with_default stakeholderSchema
                        (p @ [Key ''stakeholders'']) (map_of props ''stakeholders''))
               (both (array_with_default evidenceSchema
                        (p @ [Key ''evidence'']) (map_of props ''evidence''))
                     (optional dateString
                        (p @ [Key ''last_updated'']) (map_of props ''last_updated'')))))))) of
             Inl is \<Rightarrow> Inl is
           | Inr (sm, kp, oq, ns, rk, sh, ev, lu) \<Rightarrow>
               Inr \<lparr>summary = sm, key_points = kp, open_questions = oq, next_steps = ns,
                    risks = rk, stakeholders = sh, evidence = ev, last_updated = lu\<rparr>)
      | _ \<Rightarrow> Inl [invalid_type p ''object'' v])"

definition summarizeInputSchema :: "SummarizeInput schema" where
  "summarizeInputSchema p v =
     (case v of
        Some (JObj props) \<Rightarrow>
          (case both (optional trimmedString (p @ [Key ''deal_id'']) (map_of props ''deal_id''))
               (both (optional trimmedString (p @ [Key ''deal_name'']) (map_of props ''deal_name''))
               (both (optional trimmedString
                        (p @ [Key ''source_canvas_name'']) (map_of props ''source_canvas_name''))
               (both (contextSchema (p @ [Key ''context'']) (map_of props ''context''))
               (both (z_enum [(''exec_bullets'', Exec_bullets),
                              (''se_deal_update'', Se_deal_update), (''memo'', Memo)]
                        (p @ [Key ''output_format'']) (map_of props ''output_format''))
                     (optional trimmedString
                        (p @ [Key ''doc_title'']) (map_of props ''doc_title'')))))) of
             Inl is \<Rightarrow> Inl is
           | Inr (di, dn, sc, c, fmt, dt) \<Rightarrow>
               Inr \<lparr>deal_id = di, deal_name = dn, source_canvas_name = sc, ctx = c,
                    output_format = fmt, doc_title = dt\<rparr>)
      | _ \<Rightarrow> Inl [invalid_type p ''object'' v])"

text \<open>\<open>summarizeInputSchema.safeParse(args)\<close>\<close>

definition safeParse :: "json \<Rightarrow> SummarizeInput parsed" where
  "safeParse args = summarizeInputSchema [] (Some args)"

fun path_elem_str :: "path_elem \<Rightarrow> string" where
  "path_elem_str (Key k) = k"
| "path_elem_str (Index i) = show_nat i"

definition issue_line :: "issue \<Rightarrow> string" where
  "issue_line issue =
     (let p = (if path issue \<noteq> [] then join ''.'' (map path_elem_str (path issue))
                  else ''input'')
      in ''- '' @ p @ '': '' @ message issue)"

definition formatZodError :: "issue list \<Rightarrow> string" where
  "formatZodError errors = join [newline] (map issue_line errors)"

section \<open>The formatter (\<open>lib/format.ts\<close>)\<close>

definition MAX_ITEMS :: nat where
  "MAX_ITEMS = 8"

definition clean :: "string \<Rightarrow> string" where
  "clean text = trim (collapse_spaces text)"

record 'a limited =
  items :: "'a list"
  remaining :: nat

definition limitItems :: "'a list \<Rightarrow> 'a limited" where
  "limitItems xs =
     (if length xs \<le> MAX_ITEMS then \<lparr>items = xs, remaining = 0\<rparr>
      else \<lparr>items = take MAX_ITEMS xs, remaining = length xs - MAX_ITEMS\<rparr>)"

text \<open>The line pushed when \<open>limited.remaining\<close> is not zero.\<close>

definition more_line :: "nat \<Rightarrow> string" where
  "more_line n = ''- ... (+'' @ show_nat n @ '' more)''"

text \<open>An optional string used as a condition: absent and empty are both falsy.\<close>

fun truthy :: "string option \<Rightarrow> bool" where
  "truthy None = False"
| "truthy (Some s) = (s \<noteq> [])"

text \<open>\<open>meta.push(label + clean(field))\<close> guarded by \<open>if (field)\<close>.\<close>

definition meta_entry :: "string \<Rightarrow> string option \<Rightarrow> string list" where
  "meta_entry label field =
     (case field of None \<Rightarrow> [] | Some s \<Rightarrow> if s \<noteq> [] then [label @ clean s] else [])"

definition list_line :: "string \<Rightarrow> string" where
  "list_line item = ''- '' @ clean item"

definition formatList :: "string list \<Rightarrow> string" where
  "formatList xs =
     (if xs = [] then ''- None''
      else let limited = limitItems xs;
               lines = map list_line (items limited);
               lines = (if remaining limited \<noteq> 0 then lines @ [more_line (remaining limited)] else lines)
           in join [newline] lines)"

definition question_line :: "open_question \<Rightarrow> string" where
  "question_line item =
     (let meta = meta_entry ''Owner: '' (oq_owner item) @ meta_entry ''Due: '' (oq_due item);
          metaText = (if meta \<noteq> [] then '' ('' @ join ''; '' meta @ '')'' else [])
      in ''- '' @ clean (oq_question item) @ metaText)"

definition formatQuestions :: "open_question list \<Rightarrow> string" where
  "formatQuestions xs =
     (if xs = [] then ''- None''
      else let limited = limitItems xs;
               lines = map question_line (items limited);
               lines = (if remaining limited \<noteq> 0 then lines @ [more_line (remaining limited)] else lines)
           in join [newline] lines)"

definition next_step_line :: "next_step \<Rightarrow> string" where
  "next_step_line item =
     (let meta = [''Status: '' @ status_str (ns_status item)]
                 @ meta_entry ''Owner: '' (ns_owner item) @ meta_entry ''Due: '' (ns_due item)
      in ''- '' @ clean (ns_action item) @ '' ('' @ join ''; '' meta @ '')'')"

definition formatNextSteps :: "next_step list \<Rightarrow> string" where
  "formatNextSteps xs =
     (if xs = [] then ''- None''
      else let limited = limitItems xs;
               lines = map next_step_line (items limited);
               lines = (if remaining limited \<noteq> 0 then lines @ [more_line (remaining limited)] else lines)
           in join [newline] lines)"

text \<open>\<open>item.severity.toUpperCase()\<close> on the three literals of the enum.\<close>

fun severity_upper :: "severity \<Rightarrow> string" where
  "severity_upper Low = ''LOW''"
| "severity_upper Med = ''MED''"
| "severity_upper High = ''HIGH''"

definition risk_line :: "risk_item \<Rightarrow> string" where
  "risk_line item =
     (let mitigation = (case rk_mitigation item of
                          None \<Rightarrow> []
                        | Some m \<Rightarrow> if m \<noteq> [] then '' (Mitigation: '' @ clean m @ '')'' else [])
      in ''- ['' @ severity_upper (rk_severity item) @ ''] '' @ clean (rk_risk item) @ mitigation)"

definition formatRisks :: "risk_item list \<Rightarrow> string" where
  "formatRisks xs =
     (if xs = [] then ''- None''
      else let limited = limitItems xs;
               lines = map risk_line (items limited);
               lines = (if remaining limited \<noteq> 0 then lines @ [more_line (remaining limited)] else lines)
           in join [newline] lines)"

definition stakeholder_line :: "stakeholder \<Rightarrow> string" where
  "stakeholder_line item =
     (let meta = meta_entry ''Role: '' (sh_role item) @ meta_entry ''Influence: '' (sh_influence item);
          metaText = (if meta \<noteq> [] then '' ('' @ join ''; '' meta @ '')'' else [])
      in ''- '' @ clean (sh_name item) @ metaText)"

definition formatStakeholders :: "stakeholder list \<Rightarrow> string" where
  "formatStakeholders xs =
     (if xs = [] then ''- None''
      else let limited = limitItems xs;
               lines = map stakeholder_line (items limited);
               lines = (if remaining limited \<noteq> 0 then lines @ [more_line (remaining limited)] else lines)
           in join [newline] lines)"

text \<open>The lines pushed when \<open>output_format !== "exec_bullets"\<close>.\<close>

definition payload_lines :: "SummarizeInput \<Rightarrow> string list" where
  "payload_lines input =
     [ [], ''### Structured Payload (for ETL)'', ''```json'',
      JSON_stringify (input_json input), ''```'']"

definition formatSummary :: "SummarizeInput \<Rightarrow> string" where
  "formatSummary input =
     (let dealLabel = (case deal_name input of
                         Some n \<Rightarrow> n
                       | None \<Rightarrow> (case deal_id input of Some d \<Rightarrow> d | None \<Rightarrow> ''Unspecified''));
          lines = [''## Deal Summary'',
                   ''- Deal: '' @ clean dealLabel,
                   ''- Summary: '' @ clean (summary (ctx input))];
          lines = lines @ (if truthy (deal_name input)
                           then meta_entry ''- Deal ID: '' (deal_id input) else []);
          lines = lines @ meta_entry ''- Source Canvas: '' (source_canvas_name input);
          lines = lines @ meta_entry ''- Last Updated: '' (last_updated (ctx input));
          lines = lines @ [ [], ''## Key Points'', formatList (key_points (ctx input))];
          lines = lines @ [ [], ''## Risks'', formatRisks (risks (ctx input))];
          lines = lines @ [ [], ''## Open Questions'', formatQuestions (open_questions (ctx input))];
          lines = lines @ [ [], ''## Next Steps'', formatNextSteps (next_steps (ctx input))];
          lines = lines @ [ [], ''## Stakeholders'', formatStakeholders (stakeholders (ctx input))];
          lines = lines @ (if output_format input \<noteq> Exec_bullets then payload_lines input else [])
      in join [newline] lines)"

section \<open>The MCP route (\<open>POST /mcp\<close>)\<close>

subsection \<open>The outside world\<close>

text \<open>
  What the handlers read from and write to outside their arguments: the two environment
  variables of the webhook, the network (the outcome of the \<open>k\<close>-th \<open>fetch\<close> of the
  process, given the call), the list of \<open>fetch\<close> calls issued so far, the lines handed
  to the logger (level and event name; the logger prints them on the console), and the
  clock readings of \<open>getHealthPayload\<close>.
\<close>

datatype log_level = Info | Warn | Error

record post_body =
  pb_token :: string
  pb_title :: string
  pb_text :: string
  pb_source :: string

record fetch_call =
  fc_url :: string
  fc_body :: post_body

text \<open>A \<open>fetch\<close> either resolves with a status and a body (whose reading may fail:
  \<open>None\<close>), or rejects with an error (given by its \<open>String(error)\<close>).\<close>

datatype fetch_outcome = Responded nat "string option" | Rejected string

record world =
  DOC_WEBHOOK_URL :: "string option"
  DOC_WEBHOOK_TOKEN :: "string option"
  network :: "nat \<Rightarrow> fetch_call \<Rightarrow> fetch_outcome"
  fetched :: "fetch_call list"
  logged :: "(log_level \<times> string) list"
  process_uptime :: nat
  server_time :: string

definition log :: "log_level \<Rightarrow> string \<Rightarrow> world \<Rightarrow> world" where
  "log level event w = w\<lparr>logged := logged w @ [(level, event)]\<rparr>"

definition fetch :: "world \<Rightarrow> fetch_call \<Rightarrow> fetch_outcome \<times> world" where
  "fetch w call = (network w (length (fetched w)) call, w\<lparr>fetched := fetched w @ [call]\<rparr>)"

subsection \<open>The webhook pusher\<close>

definition getDocWebhookConfig :: "world \<Rightarrow> (string \<times> string) option" where
  "getDocWebhookConfig w =
     (case (DOC_WEBHOOK_URL w, DOC_WEBHOOK_TOKEN w) of
        (Some url, Some token) \<Rightarrow> if url = [] \<or> token = [] then None else Some (url, token)
      | _ \<Rightarrow> None)"

datatype push_result = PushOk | PushFailed string

definition NOT_CONFIGURED :: string where
  "NOT_CONFIGURED = ''DOC_WEBHOOK_URL / DOC_WEBHOOK_TOKEN not configured.''"

definition webhook_call :: "string \<times> string \<Rightarrow> string \<Rightarrow> string \<Rightarrow> fetch_call" where
  "webhook_call cfg title text =
     \<lparr>fc_url = fst cfg,
      fc_body = \<lparr>pb_token = snd cfg, pb_title = title, pb_text = text,
                 pb_source = ''CanvasETL''\<rparr>\<rparr>"

definition pushSummaryToDocWebhook :: "world \<Rightarrow> string \<Rightarrow> string \<Rightarrow> push_result \<times> world" where
  "pushSummaryToDocWebhook w title text =
     (case getDocWebhookConfig w of
        None \<Rightarrow> (PushFailed NOT_CONFIGURED, w)
      | Some cfg \<Rightarrow>
          (case fetch w (webhook_call cfg title text) of
             (Rejected error, w') \<Rightarrow> (PushFailed error, w')
           | (Responded status body, w') \<Rightarrow>
               if 200 \<le> status \<and> status < 400 then (PushOk, w')
               else (PushFailed (''Webhook HTTP '' @ show_nat status @ '': ''
                                 @ take 300 (case body of None \<Rightarrow> [] | Some b \<Rightarrow> b)), w')))"

subsection \<open>JSON-RPC envelopes\<close>

definition SERVER_NAME :: string where
  "SERVER_NAME = ''CanvasApp MCP Summarizer''"

definition SERVER_VERSION :: string where
  "SERVER_VERSION = ''0.1.0''"

definition PROTOCOL_VERSION :: string where
  "PROTOCOL_VERSION = ''2024-11-05''"

definition getHealthPayload :: "world \<Rightarrow> json" where
  "getHealthPayload w =
     JObj [(''version'', JStr SERVER_VERSION),
           (''uptime'', JNum (int (process_uptime w))),
           (''server_time'', JStr (server_time w))]"

definition coerceJsonRpcId :: "json \<Rightarrow> json" where
  "coerceJsonRpcId v = (case v of JStr s \<Rightarrow> JStr s | JNum n \<Rightarrow> JNum n | _ \<Rightarrow> JNull)"

definition isObject :: "json option \<Rightarrow> bool" where
  "isObject v = (case v of Some (JObj ms) \<Rightarrow> True | _ \<Rightarrow> False)"

text \<open>The properties of a value that passed \<open>isObject\<close>, and \<open>{}\<close> otherwise.\<close>

definition object_or_empty :: "json option \<Rightarrow> (string \<times> json) list" where
  "object_or_empty v = (case v of Some (JObj ms) \<Rightarrow> ms | _ \<Rightarrow> [])"

text \<open>The response objects, as they are serialised: a \<open>data\<close> that is \<open>undefined\<close> is
  left out.\<close>

definition makeError :: "json \<Rightarrow> int \<Rightarrow> string \<Rightarrow> json option \<Rightarrow> json" where
  "makeError rid code msg data =
     JObj [(''jsonrpc'', JStr ''2.0''), (''id'', rid),
           (''error'', JObj ([(''code'', JNum code), (''message'', JStr msg)]
                             @ (case data of None \<Rightarrow> [] | Some d \<Rightarrow> [(''data'', d)])))]"

definition makeResult :: "json \<Rightarrow> json \<Rightarrow> json" where
  "makeResult rid result =
     JObj [(''jsonrpc'', JStr ''2.0''), (''id'', rid), (''result'', result)]"

text \<open>The tool result literal \<open>{ content: [{ type: "text", text }], isError }\<close>.\<close>

definition toolResult :: "string \<Rightarrow> bool \<Rightarrow> json" where
  "toolResult text isError =
     JObj [(''content'', JArr [JObj [(''type'', JStr ''text''), (''text'', JStr text)]]),
           (''isError'', JBool isError)]"

subsection \<open>The tool catalogue\<close>

definition string_schema :: json where
  "string_schema = JObj [(''type'', JStr ''string'')]"

definition enum_schema :: "string list \<Rightarrow> json" where
  "enum_schema vs = JObj [(''type'', JStr ''string''), (''enum'', JArr (map JStr vs))]"

text \<open>An object schema of the catalogue; every one of them carries
  \<open>additionalProperties: false\<close>.\<close>

definition object_schema :: "(string \<times> json) list \<Rightarrow> string list \<Rightarrow> json" where
  "object_schema props required =
     JObj [(''type'', JStr ''object''), (''properties'', JObj props),
           (''required'', JArr (map JStr required)), (''additionalProperties'', JBool False)]"

definition array_schema :: "json \<Rightarrow> json" where
  "array_schema item = JObj [(''type'', JStr ''array''), (''items'', item)]"

definition TOOL_DEFS :: "json list" where
  "TOOL_DEFS =
     [JObj [(''name'', JStr ''healthcheck''),
            (''description'', JStr ''Return server version, uptime, and server_time.''),
            (''inputSchema'',
               JObj [(''type'', JStr ''object''), (''properties'', JObj []),
                     (''additionalProperties'', JBool False)])],
      JObj [(''name'', JStr ''summarize_context''),
            (''description'', JStr
               (''Read the full relevant conversation context and (if specified) the canvas named source_canvas_name before calling this tool. ''
                @ ''Do not ask the user to paste anything. ''
                @ ''Prefer structured extraction; keep evidence excerpts short and minimal. ''
                @ ''If the canvas name is provided, prioritize the canvas for canonical fields, and use the chat for recent deltas.'')),
            (''inputSchema'',
               object_schema
                 [(''deal_id'', string_schema),
                  (''deal_name'', string_schema),
                  (''source_canvas_name'', string_schema),
                  (''doc_title'', string_schema),
                  (''context'',
                     object_schema
                       [(''summary'', string_schema),
                        (''key_points'', array_schema string_schema),
                        (''open_questions'', array_schema
                           (object_schema
                              [(''question'', string_schema), (''owner'', string_schema),
                               (''due'', string_schema)]
                              [''question''])),
                        (''next_steps'', array_schema
                           (object_schema
                              [(''action'', string_schema), (''owner'', string_schema),
                               (''due'', string_schema),
                               (''status'', enum_schema [''open'', ''done''])]
                              [''action'', ''status''])),
                        (''risks'', array_schema
                           (object_schema
                              [(''risk'', string_schema),
                               (''severity'', enum_schema [''low'', ''med'', ''high'']),
                               (''mitigation'', string_schema)]
                              [''risk'', ''severity''])),
                        (''stakeholders'', array_schema
                           (object_schema
                              [(''name'', string_schema), (''role'', string_schema),
                               (''influence'', string_schema)]
                              [''name''])),
                        (''evidence'', array_schema
                           (object_schema
                              [(''type'', enum_schema [''conversation'', ''canvas'']),
                               (''pointer'', string_schema), (''excerpt'', string_schema)]
                              [''type'', ''pointer'', ''excerpt''])),
                        (''last_updated'',
                           JObj [(''type'', JStr ''string''),
                                 (''description'', JStr ''YYYY-MM-DD'')])]
                       [''summary'']),
                  (''output_format'',
                     enum_schema [''exec_bullets'', ''se_deal_update'', ''memo''])]
                 [''context'', ''output_format''])]]"

subsection \<open>The dispatcher\<close>

text \<open>The \<open>summarize_context\<close> branch of \<open>tools/call\<close>.\<close>

definition summarize_context :: "world \<Rightarrow> json \<Rightarrow> (string \<times> json) list \<Rightarrow> json option \<times> world" where
  "summarize_context w rid args =
     (case safeParse (JObj args) of
        Inl errors \<Rightarrow>
          (Some (makeResult rid
                   (toolResult (''Validation error:'' @ [newline] @ formatZodError errors) True)),
           log Warn ''mcp.tools.call.validation_error'' w)
      | Inr data \<Rightarrow>
          (let summaryText = formatSummary data;
               title = (case doc_title data of
                          Some t \<Rightarrow> t
                        | None \<Rightarrow> (case deal_name data of
                                     Some n \<Rightarrow> n
                                   | None \<Rightarrow> (case deal_id data of
                                                Some d \<Rightarrow> d
                                              | None \<Rightarrow> ''CanvasETL Summary'')));
               (pushResult, w1) = pushSummaryToDocWebhook w title summaryText;
               w2 = (case pushResult of
                       PushOk \<Rightarrow> log Info ''mcp.doc_push.ok'' w1
                     | PushFailed error \<Rightarrow> log Error ''mcp.doc_push.failed'' w1);
               w3 = log Info ''mcp.tools.call.summarize_context'' w2
           in (Some (makeResult rid
                       (toolResult
                          (case pushResult of
                             PushOk \<Rightarrow> ''Doc push: ok'' @ [newline] @ ''Title: '' @ title
                           | PushFailed error \<Rightarrow> ''Doc push: failed'' @ [newline] @ error)
                          (pushResult \<noteq> PushOk))),
               w3)))"

text \<open>The \<open>tools/call\<close> case of the switch.\<close>

definition tools_call :: "world \<Rightarrow> json \<Rightarrow> (string \<times> json) list \<Rightarrow> json option \<times> world" where
  "tools_call w rid envelope =
     (let params = object_or_empty (map_of envelope ''params'');
          name = (case map_of params ''name'' of Some (JStr n) \<Rightarrow> n | _ \<Rightarrow> []);
          args = object_or_empty (map_of params ''arguments'')
      in if name = [] then
           (Some (makeResult rid (toolResult ''Validation error: tool name is required.'' True)),
            log Warn ''mcp.tools.call.invalid'' w)
         else if name = ''healthcheck'' then
           (Some (makeResult rid (toolResult (JSON_stringify (getHealthPayload w)) False)),
            log Info ''mcp.tools.call.healthcheck'' w)
         else if name = ''summarize_context'' then summarize_context w rid args
         else
           (Some (makeResult rid (toolResult (''Unknown tool: '' @ name) True)),
            log Warn ''mcp.tools.call.unknown_tool'' w))"

definition handleMessage :: "world \<Rightarrow> json \<Rightarrow> json option \<times> world" where
  "handleMessage w msg =
     (case msg of
        JObj envelope \<Rightarrow>
          (let hasId = (map_of envelope ''id'' \<noteq> None);
               rid = (case map_of envelope ''id'' of Some v \<Rightarrow> coerceJsonRpcId v | None \<Rightarrow> JNull)
           in if map_of envelope ''jsonrpc'' \<noteq> Some (JStr ''2.0'') then
                (Some (makeError rid (- 32600) ''Invalid Request''
                         (Some (JStr (''Missing jsonrpc: '' @ [CHR 0x27] @ ''2.0'' @ [CHR 0x27] @ ''.'')))), w)
              else
                (let method = (case map_of envelope ''method'' of Some (JStr m) \<Rightarrow> m | _ \<Rightarrow> [])
                 in if method = [] then
                      (Some (makeError rid (- 32600) ''Invalid Request''
                               (Some (JStr ''Missing method.''))), w)
                    else if method = ''initialized'' \<or> method = ''notifications/initialized'' then
                      (if hasId then Some (makeResult rid (JObj [])) else None,
                       log Info ''mcp.initialized'' w)
                    else if \<not> hasId \<and> method \<noteq> ''notifications/initialized''
                            \<and> method \<noteq> ''initialized'' then
                      (None, log Warn ''mcp.notification.ignored'' w)
                    else if method = ''initialize'' then
                      (Some (makeResult rid
                               (JObj [(''protocolVersion'', JStr PROTOCOL_VERSION),
                                      (''capabilities'',
                                         JObj [(''tools'', JObj [(''listChanged'', JBool False)])]),
                                      (''serverInfo'',
                                         JObj [(''name'', JStr SERVER_NAME),
                                               (''version'', JStr SERVER_VERSION)])])),
                       log Info ''mcp.initialize'' w)
                    else if method = ''tools/list'' then
                      (Some (makeResult rid (JObj [(''tools'', JArr TOOL_DEFS)])),
                       log Info ''mcp.tools.list'' w)
                    else if method = ''tools/call'' then tools_call w rid envelope
                    else
                      (Some (makeError rid (- 32601) ''Method not found''
                               (Some (JObj [(''method'', JStr method)]))),
                       log Warn ''mcp.method.not_found'' w)))
      | _ \<Rightarrow> (Some (makeError JNull (- 32600) ''Invalid Request''
                       (Some (JStr ''Expected JSON object.''))), w))"

subsection \<open>The HTTP handler\<close>

text \<open>What \<open>POST\<close> returns: a response without content, or a JSON body with its status.\<close>

datatype http_response = NoContent nat | JsonBody nat json

text \<open>The loop over the elements of a batch; the last argument is \<open>responses\<close>.\<close>

fun batch_loop :: "world \<Rightarrow> json list \<Rightarrow> json list \<Rightarrow> json list \<times> world" where
  "batch_loop w [] responses = (responses, w)"
| "batch_loop w (m # rest) responses =
     (case handleMessage w m of
        (None, w') \<Rightarrow> batch_loop w' rest responses
      | (Some response, w') \<Rightarrow> batch_loop w' rest (responses @ [response]))"

text \<open>The body is \<open>None\<close> when \<open>req.json()\<close> throws.\<close>

definition POST :: "world \<Rightarrow> json option \<Rightarrow> http_response \<times> world" where
  "POST w body =
     (case body of
        None \<Rightarrow>
          (JsonBody 400 (makeError JNull (- 32700) ''Parse error'' None),
           log Error ''mcp.parse_error'' w)
      | Some (JArr messages) \<Rightarrow>
          (case batch_loop w messages [] of
             (responses, w') \<Rightarrow>
               if responses = [] then (NoContent 204, w') else (JsonBody 200 (JArr responses), w'))
      | Some single \<Rightarrow>
          (case handleMessage w single of
             (None, w') \<Rightarrow> (NoContent 204, w')
           | (Some response, w') \<Rightarrow> (JsonBody 200 response, w')))"

section \<open>Plain values\<close>

text \<open>
  A notion used in the proofs about \<open>JSON.parse\<close>: a value is plain when it holds no
  number and no object in it names a property twice. The object of a validated request
  is plain.
\<close>

fun plain :: "json \<Rightarrow> bool" where
  "plain JNull = True"
| "plain (JBool b) = True"
| "plain (JNum n) = False"
| "plain (JStr s) = True"
| "plain (JArr xs) = list_all plain xs"
| "plain (JObj ms) = (distinct (map fst ms) \<and> list_all (\<lambda>m. plain (snd m)) ms)"

text \<open>A text starts a plain value when its first character is a quote, an opening bracket
  or brace, or the first letter of \<open>true\<close>, \<open>false\<close> or \<open>null\<close>.\<close>

definition starts_value :: "string \<Rightarrow> bool" where
  "starts_value s \<longleftrightarrow>
     (\<exists>c cs. s = c # cs
        \<and> c \<in> set [CHR 0x22, CHR ''['', CHR ''{'', CHR ''t'', CHR ''f'', CHR ''n''])"

text \<open>The lines of a summary without payload: empty lines, headings and list items.\<close>

definition plain_line :: "string \<Rightarrow> bool" where
  "plain_line l \<longleftrightarrow> l = [] \<or> prefix ''## '' l \<or> prefix ''- '' l"

section \<open>Well-formed issues\<close>

text \<open>
  Notions used in the proofs about the validator. A path is printable on one line when none
  of its elements contains a line break. The outcome of parsing a property of an object
  at path \<open>p\<close> is well formed when each of its issues lies strictly below \<open>p\<close>, on a
  printable path, and a failure carries at least one issue. A schema is well formed when
  at every path its issues lie at or below that path, on a printable extension, and a
  failure carries at least one issue.
\<close>

definition path_ok :: "path_elem list \<Rightarrow> bool" where
  "path_ok q = list_all (\<lambda>el. newline \<notin> set (path_elem_str el)) q"

definition field_ok :: "path_elem list \<Rightarrow> 'a parsed \<Rightarrow> bool" where
  "field_ok p r \<longleftrightarrow>
     list_all (\<lambda>e. \<exists>q. path e = p @ q \<and> q \<noteq> [] \<and> path_ok q) (issues_of r) \<and> r \<noteq> Inl []"

definition sound :: "'a schema \<Rightarrow> bool" where
  "sound sch \<longleftrightarrow>
     (\<forall>p v. list_all (\<lambda>e. \<exists>q. path e = p @ q \<and> path_ok q) (issues_of (sch p v))
            \<and> sch p v \<noteq> Inl [])"

section \<open>Batches, element by element\<close>

text \<open>The world left by handling a list of messages one after the other, and the response
  to the \<open>i\<close>-th element of a batch: what \<open>handleMessage\<close> answers to that element alone,
  in the world left by the elements before it.\<close>

fun world_after :: "world \<Rightarrow> json list \<Rightarrow> world" where
  "world_after w [] = w"
| "world_after w (m # ms) = world_after (snd (handleMessage w m)) ms"

definition response_at :: "world \<Rightarrow> json list \<Rightarrow> nat \<Rightarrow> json option" where
  "response_at w msgs i = fst (handleMessage (world_after w (take i msgs)) (msgs ! i))"

section \<open>Sample worlds and requests\<close>

text \<open>A configured deployment whose sink answers every call with the given outcome, one
  whose sink answers with status 500 and echoes the text it was sent, and a deployment
  without webhook configuration.\<close>

definition sink :: "fetch_outcome \<Rightarrow> world" where
  "sink outcome =
     \<lparr>DOC_WEBHOOK_URL = Some ''https://sink.example/exec'', DOC_WEBHOOK_TOKEN = Some ''s3cret'',
      network = (\<lambda>k call. outcome), fetched = [], logged = [],
      process_uptime = 12, server_time = ''2025-02-14T00:00:00.000Z''\<rparr>"

definition echo_sink :: world where
  "echo_sink =
     \<lparr>DOC_WEBHOOK_URL = Some ''https://sink.example/exec'', DOC_WEBHOOK_TOKEN = Some ''s3cret'',
      network = (\<lambda>k call. Responded 500 (Some (pb_text (fc_body call)))),
      fetched = [], logged = [],
      process_uptime = 12, server_time = ''2025-02-14T00:00:00.000Z''\<rparr>"

definition unconfigured :: world where
  "unconfigured =
     \<lparr>DOC_WEBHOOK_URL = None, DOC_WEBHOOK_TOKEN = None,
      network = (\<lambda>k call. Rejected ''unreachable''), fetched = [], logged = [],
      process_uptime = 12, server_time = ''2025-02-14T00:00:00.000Z''\<rparr>"

text \<open>A request envelope with id 1, and a \<open>tools/call\<close> of \<open>summarize_context\<close>.\<close>

definition request :: "string \<Rightarrow> (string \<times> json) list \<Rightarrow> json" where
  "request method params =
     JObj [(''jsonrpc'', JStr ''2.0''), (''id'', JNum 1), (''method'', JStr method),
           (''params'', JObj params)]"

definition call_summarize :: "(string \<times> json) list \<Rightarrow> json" where
  "call_summarize args =
     request ''tools/call'' [(''name'', JStr ''summarize_context''), (''arguments'', JObj args)]"

definition minimal_args :: "(string \<times> json) list" where
  "minimal_args =
     [(''context'', JObj [(''summary'', JStr ''Renewal in negotiation'')]),
      (''output_format'', JStr ''exec_bullets'')]"

text \<open>The validated request of \<open>minimal_args\<close>.\<close>

definition minimal_input :: SummarizeInput where
  "minimal_input =
     \<lparr>deal_id = None, deal_name = None, source_canvas_name = None,
      ctx = \<lparr>summary = ''Renewal in negotiation'', key_points = [], open_questions = [],
             next_steps = [], risks = [], stakeholders = [], evidence = [],
             last_updated = None\<rparr>,
      output_format = Exec_bullets, doc_title = None\<rparr>"

section \<open>Properties of the formatter\<close>

subsection \<open>Lines\<close>

lemma space_newline [simp]: "is_space newline"
  by (simp add: is_space_def newline_def)

lemma collapse_spaces_chars: "c \<in> set (collapse_spaces s) \<Longrightarrow> \<not> is_space c \<or> c = CHR 0x20"
proof (induction s rule: collapse_spaces.induct)
  case 1
  then show ?case by simp
next
  case (2 d ds)
  then show ?case by (auto split: if_splits)
qed

lemma set_trim: "set (trim s) \<subseteq> set s"
  unfolding trim_def by (auto dest!: set_dropWhileD)

lemma newline_notin_clean [simp]: "newline \<notin> set (clean s)"
proof
  assume "newline \<in> set (clean s)"
  then have "newline \<in> set (collapse_spaces s)"
    using set_trim unfolding clean_def by blast
  from collapse_spaces_chars[OF this] show False
    by (simp add: newline_def is_space_def)
qed

lemma split_lines_nonempty [simp]: "split_lines s \<noteq> []"
  by (induction s) (auto split: list.splits)

lemma split_lines_single: "newline \<notin> set s \<Longrightarrow> split_lines s = [s]"
  by (induction s) auto

lemma split_lines_append:
  "newline \<notin> set a \<Longrightarrow> split_lines (a @ newline # b) = a # split_lines b"
  by (induction a) auto

lemma split_lines_join:
  "ls \<noteq> [] \<Longrightarrow> \<forall>l \<in> set ls. newline \<notin> set l \<Longrightarrow> split_lines (join [newline] ls) = ls"
proof (induction "[newline]" ls rule: join.induct)
  case 1
  then show ?case by simp
next
  case (2 x)
  then show ?case by (simp add: split_lines_single)
next
  case (3 x y ys)
  then show ?case by (simp add: split_lines_append)
qed

lemma digit_char_not_newline:
  assumes "d < 10"
  shows "digit_char d \<noteq> newline"
proof
  assume "digit_char d = newline"
  then have "(of_char (digit_char d) :: nat) = of_char newline" by simp
  with assms show False by (simp add: digit_char_def newline_def)
qed

lemma newline_notin_show_nat [simp]: "newline \<notin> set (show_nat n)"
proof (induction n rule: show_nat.induct)
  case (1 n)
  show ?case
  proof (cases "n < 10")
    case True
    then show ?thesis
      using digit_char_not_newline[of n] by (subst show_nat.simps) auto
  next
    case False
    then show ?thesis
      using 1 digit_char_not_newline[of "n mod 10"] by (subst show_nat.simps) auto
  qed
qed

lemma newline_notin_more_line [simp]: "newline \<notin> set (more_line n)"
  by (simp add: more_line_def) (simp add: newline_def)

lemma newline_notin_join:
  "newline \<notin> set sep \<Longrightarrow> \<forall>l \<in> set ls. newline \<notin> set l \<Longrightarrow> newline \<notin> set (join sep ls)"
  by (induction sep ls rule: join.induct) auto

lemma newline_notin_meta_entry:
  "newline \<notin> set label \<Longrightarrow> \<forall>l \<in> set (meta_entry label field). newline \<notin> set l"
  by (auto simp: meta_entry_def split: option.splits)

lemma newline_notin_list_line [simp]: "newline \<notin> set (list_line item)"
  by (simp add: list_line_def) (simp add: newline_def)

lemma newline_notin_meta2:
  assumes "newline \<notin> set a" "newline \<notin> set b"
  shows "newline \<notin> set (join ''; '' (pre @ meta_entry a x @ meta_entry b y)) \<or> (\<exists>l \<in> set pre. newline \<in> set l)"
proof (cases "\<exists>l \<in> set pre. newline \<in> set l")
  case True
  then show ?thesis by simp
next
  case False
  have "\<forall>l \<in> set (pre @ meta_entry a x @ meta_entry b y). newline \<notin> set l"
    using False newline_notin_meta_entry[OF assms(1), of x] newline_notin_meta_entry[OF assms(2), of y]
    by auto
  then have "newline \<notin> set (join ''; '' (pre @ meta_entry a x @ meta_entry b y))"
    by (intro newline_notin_join) (simp_all add: newline_def)
  then show ?thesis by simp
qed

lemma newline_notin_question_line [simp]: "newline \<notin> set (question_line item)"
  using newline_notin_meta2[of "''Owner: ''" "''Due: ''" "[]" "oq_owner item" "oq_due item"]
  by (simp add: question_line_def Let_def) (simp add: newline_def)

lemma newline_notin_stakeholder_line [simp]: "newline \<notin> set (stakeholder_line item)"
  using newline_notin_meta2[of "''Role: ''" "''Influence: ''" "[]" "sh_role item" "sh_influence item"]
  by (simp add: stakeholder_line_def Let_def) (simp add: newline_def)

lemma newline_notin_next_step_line [simp]: "newline \<notin> set (next_step_line item)"
  using newline_notin_meta2[of "''Owner: ''" "''Due: ''" "[''Status: '' @ status_str (ns_status item)]" "ns_owner item" "ns_due item"]
  by (cases "ns_status item") (simp_all add: next_step_line_def Let_def, simp_all add: newline_def)

lemma newline_notin_risk_line [simp]: "newline \<notin> set (risk_line item)"
  by (cases "rk_severity item"; cases "rk_mitigation item")
     (simp_all add: risk_line_def Let_def, simp_all add: newline_def)

lemma none_line: "split_lines ''- None'' = [''- None'']"
  by (simp add: newline_def)

lemma capped_lines:
  assumes "\<And>x. newline \<notin> set (f x)" and "xs \<noteq> []"
  shows "split_lines (join [newline]
           (if remaining (limitItems xs) \<noteq> 0
            then map f (items (limitItems xs)) @ [more_line (remaining (limitItems xs))]
            else map f (items (limitItems xs))))
         = (if 8 < length xs then map f (take 8 xs) @ [more_line (length xs - 8)] else map f xs)"
  using assms by (auto simp: limitItems_def MAX_ITEMS_def split_lines_join)

lemma formatList_lines:
  "split_lines (formatList ks) =
     (if ks = [] then [''- None'']
      else if 8 < length ks then map list_line (take 8 ks) @ [more_line (length ks - 8)]
      else map list_line ks)"
  using capped_lines[of list_line ks] none_line
  by (simp add: formatList_def Let_def)

lemma formatQuestions_lines:
  "split_lines (formatQuestions qs) =
     (if qs = [] then [''- None'']
      else if 8 < length qs then map question_line (take 8 qs) @ [more_line (length qs - 8)]
      else map question_line qs)"
  using capped_lines[of question_line qs] none_line
  by (simp add: formatQuestions_def Let_def)

lemma formatNextSteps_lines:
  "split_lines (formatNextSteps ns) =
     (if ns = [] then [''- None'']
      else if 8 < length ns then map next_step_line (take 8 ns) @ [more_line (length ns - 8)]
      else map next_step_line ns)"
  using capped_lines[of next_step_line ns] none_line
  by (simp add: formatNextSteps_def Let_def)

lemma formatRisks_lines:
  "split_lines (formatRisks rs) =
     (if rs = [] then [''- None'']
      else if 8 < length rs then map risk_line (take 8 rs) @ [more_line (length rs - 8)]
      else map risk_line rs)"
  using capped_lines[of risk_line rs] none_line
  by (simp add: formatRisks_def Let_def)

lemma formatStakeholders_lines:
  "split_lines (formatStakeholders ss) =
     (if ss = [] then [''- None'']
      else if 8 < length ss then map stakeholder_line (take 8 ss) @ [more_line (length ss - 8)]
      else map stakeholder_line ss)"
  using capped_lines[of stakeholder_line ss] none_line
  by (simp add: formatStakeholders_def Let_def)

text \<open>
  Claim C3. Every list-shaped section (key points, open questions, next steps, risks,
  stakeholders) renders as follows, whatever the entries are. An empty list gives the
  single line \<open>- None\<close>. A list of more than eight entries gives the item lines of its
  first eight entries, in order, followed by the one line \<open>- ... (+N more)\<close> where N is
  the number of entries beyond the eighth. A list of one to eight entries gives one item
  line per entry, in order, and nothing else.
\<close>

theorem section_rendering:
  "split_lines (formatList ks) =
     (if ks = [] then [''- None'']
      else if 8 < length ks
        then map list_line (take 8 ks) @ [''- ... (+'' @ show_nat (length ks - 8) @ '' more)'']
      else map list_line ks)
   \<and> split_lines (formatQuestions qs) =
     (if qs = [] then [''- None'']
      else if 8 < length qs
        then map question_line (take 8 qs) @ [''- ... (+'' @ show_nat (length qs - 8) @ '' more)'']
      else map question_line qs)
   \<and> split_lines (formatNextSteps ns) =
     (if ns = [] then [''- None'']
      else if 8 < length ns
        then map next_step_line (take 8 ns) @ [''- ... (+'' @ show_nat (length ns - 8) @ '' more)'']
      else map next_step_line ns)
   \<and> split_lines (formatRisks rs) =
     (if rs = [] then [''- None'']
      else if 8 < length rs
        then map risk_line (take 8 rs) @ [''- ... (+'' @ show_nat (length rs - 8) @ '' more)'']
      else map risk_line rs)
   \<and> split_lines (formatStakeholders ss) =
     (if ss = [] then [''- None'']
      else if 8 < length ss
        then map stakeholder_line (take 8 ss) @ [''- ... (+'' @ show_nat (length ss - 8) @ '' more)'']
      else map stakeholder_line ss)"
  by (simp add: formatList_lines formatQuestions_lines formatNextSteps_lines formatRisks_lines
        formatStakeholders_lines more_line_def)

text \<open>The three cases of C3 at concrete lists: nine key points, one open question, and
  empty lists.\<close>

theorem section_rendering_witness:
  "split_lines (formatList [''a'', ''b'', ''c'', ''d'', ''e'', ''f'', ''g'', ''h'', ''i''])
     = [''- a'', ''- b'', ''- c'', ''- d'', ''- e'', ''- f'', ''- g'', ''- h'', ''- ... (+1 more)'']
   \<and> split_lines (formatQuestions
        [\<lparr>oq_question = '' Final   signer? '', oq_owner = Some ''AE'', oq_due = None\<rparr>])
     = [''- Final signer? (Owner: AE)'']
   \<and> split_lines (formatNextSteps []) = [''- None'']
   \<and> split_lines (formatRisks []) = [''- None'']
   \<and> split_lines (formatStakeholders []) = [''- None'']"
proof -
  have a: "map list_line (take 8 [''a'', ''b'', ''c'', ''d'', ''e'', ''f'', ''g'', ''h'', ''i''])
      = [''- a'', ''- b'', ''- c'', ''- d'', ''- e'', ''- f'', ''- g'', ''- h'']"
    by code_simp
  have b: "show_nat (Suc 0) = ''1''"
    by code_simp
  have c: "question_line \<lparr>oq_question = '' Final   signer? '', oq_owner = Some ''AE'', oq_due = None\<rparr>
      = ''- Final signer? (Owner: AE)''"
    by code_simp
  show ?thesis
    using section_rendering[of "[''a'', ''b'', ''c'', ''d'', ''e'', ''f'', ''g'', ''h'', ''i'']"
        "[\<lparr>oq_question = '' Final   signer? '', oq_owner = Some ''AE'', oq_due = None\<rparr>]"
        "[]" "[]" "[]"] a b c
    by simp
qed

section \<open>Reading back what \<open>JSON.stringify\<close> wrote\<close>

lemma hex_value_digits: "\<forall>d \<in> set [0..<16]. hex_value (hex_digit d) = Some d"
  by code_simp

lemma hex_value_digit: "d < 16 \<Longrightarrow> hex_value (hex_digit d) = Some d"
  using hex_value_digits by simp

lemma control_char_escape:
  assumes "(of_char c :: nat) < 32"
  shows "hex4 (CHR ''0'') (CHR ''0'') (hex_digit (of_char c div 16)) (hex_digit (of_char c mod 16))
           = Some (of_char c)"
proof -
  have a: "hex_value (hex_digit (of_char c div 16)) = Some (of_char c div 16)"
    using assms by (intro hex_value_digit) simp
  have b: "hex_value (hex_digit (of_char c mod 16)) = Some (of_char c mod 16)"
    by (intro hex_value_digit) simp
  have z: "hex_value (CHR ''0'') = Some 0" by (simp add: hex_value_def)
  show ?thesis by (simp add: hex4_def a b z)
qed

lemma parse_quote_char:
  "parse_chars (quote_char c @ s)
     = (case parse_chars s of None \<Rightarrow> None | Some (t, r) \<Rightarrow> Some (c # t, r))"
proof (cases "(of_char c :: nat) < 32")
  case True
  note ctl = control_char_escape[OF True]
  have lt: "(of_char c :: nat) < 256" using True by simp
  show ?thesis
    using True by (auto simp: quote_char_def unescape_def ctl lt split: option.splits)
next
  case False
  then show ?thesis
    by (auto simp: quote_char_def unescape_def split: option.splits)
qed

lemma parse_quoted:
  "parse_chars (concat (map quote_char s) @ CHR 0x22 # rest) = Some (s, rest)"
  by (induction s) (simp_all add: parse_quote_char)


lemma starts_value_append: "starts_value s \<Longrightarrow> starts_value (s @ r)"
  by (auto simp: starts_value_def)

lemma serialize_starts: "plain v \<Longrightarrow> starts_value (serialize ind v)"
  by (cases v) (auto simp: starts_value_def QuoteJSONString_def)

lemma skip_ws_value: "starts_value s \<Longrightarrow> skip_ws s = s"
  by (auto simp: starts_value_def skip_ws_def is_json_ws_def)

lemma skip_ws_spaces:
  "set ind \<subseteq> {CHR 0x20} \<Longrightarrow> skip_ws (ind @ s) = skip_ws s"
  by (induction ind) (auto simp: skip_ws_def is_json_ws_def)

lemma skip_ws_break:
  "set ind \<subseteq> {CHR 0x20} \<Longrightarrow> skip_ws (newline # ind @ s) = skip_ws s"
  using skip_ws_spaces[of ind s] by (simp add: skip_ws_def is_json_ws_def newline_def)

lemma join_starts:
  "xs \<noteq> [] \<Longrightarrow> starts_value (hd xs) \<Longrightarrow> starts_value (join sep xs @ r)"
  by (induction sep xs rule: join.induct) (auto simp: starts_value_def)

lemma elements_roundtrip:
  assumes ih: "\<And>x f ind rest. x \<in> set xs \<Longrightarrow> size x < f \<Longrightarrow> set ind \<subseteq> {CHR 0x20} \<Longrightarrow>
                 parse_value f (serialize ind x @ rest) = Some (x, rest)"
    and pl: "list_all plain xs" and ne: "xs \<noteq> []"
    and sp: "set ind \<subseteq> {CHR 0x20}" "set ind' \<subseteq> {CHR 0x20}"
    and fu: "size_list size xs < f"
  shows "parse_elements f
           (join ('','' @ [newline] @ ind') (map (serialize ind') xs) @ [newline] @ ind @ '']'' @ rest)
         = Some (xs, rest)"
  using ih pl ne fu
proof (induction xs arbitrary: f)
  case Nil
  then show ?case by simp
next
  case (Cons x xs)
  from Cons.prems(4) obtain m where f: "f = Suc m" and mx: "size x < m" and ml: "size_list size xs < m \<or> xs = []"
    by (cases f) auto
  have px: "parse_value m (serialize ind' x @ r) = Some (x, r)" for r
    using Cons.prems(1)[of x m ind' r] mx sp by simp
  show ?case
  proof (cases xs)
    case Nil
    have "skip_ws ([newline] @ ind @ '']'' @ rest) = '']'' @ rest"
      using skip_ws_break[OF sp(1), of "'']'' @ rest"] by (simp add: skip_ws_def is_json_ws_def)
    then show ?thesis
      using px[of "[newline] @ ind @ '']'' @ rest"] by (simp add: f Nil)
  next
    case (Cons y ys)
    let ?tail = "join ('','' @ [newline] @ ind') (map (serialize ind') xs) @ [newline] @ ind @ '']'' @ rest"
    have st: "starts_value ?tail"
      using Cons.prems(2) Cons by (intro join_starts) (simp_all add: serialize_starts)
    have sk: "skip_ws ([newline] @ ind' @ ?tail) = ?tail"
      using skip_ws_break[OF sp(2), of ?tail] skip_ws_value[OF st] by simp
    have ih': "parse_elements m ?tail = Some (xs, rest)"
      using Cons.prems ml Cons by (intro Cons.IH) auto
    have "join ('','' @ [newline] @ ind') (map (serialize ind') (x # xs)) @ [newline] @ ind @ '']'' @ rest
        = serialize ind' x @ ('','' @ [newline] @ ind' @ ?tail)"
      by (simp add: Cons)
    then show ?thesis
      using px[of "'','' @ [newline] @ ind' @ ?tail"] sk ih'
      by (simp add: f skip_ws_def is_json_ws_def)
  qed
qed


lemma members_roundtrip:
  assumes ih: "\<And>m f ind rest. m \<in> set ms \<Longrightarrow> size (snd m) < f \<Longrightarrow> set ind \<subseteq> {CHR 0x20} \<Longrightarrow>
                 parse_value f (serialize ind (snd m) @ rest) = Some (snd m, rest)"
    and pl: "list_all (\<lambda>m. plain (snd m)) ms" and ne: "ms \<noteq> []"
    and sp: "set ind \<subseteq> {CHR 0x20}" "set ind' \<subseteq> {CHR 0x20}"
    and fu: "size_list (\<lambda>m. size (snd m)) ms < f"
  shows "parse_members f
           (join ('','' @ [newline] @ ind')
              (map (\<lambda>(k, v). QuoteJSONString k @ '': '' @ serialize ind' v) ms)
            @ [newline] @ ind @ ''}'' @ rest)
         = Some (ms, rest)"
  using ih pl ne fu
proof (induction ms arbitrary: f)
  case Nil
  then show ?case by simp
next
  case (Cons m ms)
  from Cons.prems(4) obtain n where f: "f = Suc n" and mx: "size (snd m) < n"
    and ml: "size_list (\<lambda>m. size (snd m)) ms < n \<or> ms = []"
    by (cases f) auto
  obtain k v where m: "m = (k, v)" by (cases m)
  have pv: "plain v" using Cons.prems(2) m by simp
  have px: "parse_value n (serialize ind' v @ r) = Some (v, r)" for r
    using Cons.prems(1)[of m n ind' r] mx sp m by simp
  have key: "parse_chars (concat (map quote_char k) @ CHR 0x22 # r) = Some (k, r)" for r
    by (rule parse_quoted)
  have val: "skip_ws ('' '' @ serialize ind' v @ r) = serialize ind' v @ r" for r
    using skip_ws_spaces[of "'' ''" "serialize ind' v @ r"]
      skip_ws_value[OF starts_value_append[OF serialize_starts[OF pv]], of ind' r]
    by simp
  show ?case
  proof (cases ms)
    case Nil
    have "skip_ws ([newline] @ ind @ ''}'' @ rest) = ''}'' @ rest"
      using skip_ws_break[OF sp(1), of "''}'' @ rest"] by (simp add: skip_ws_def is_json_ws_def)
    then show ?thesis
      using px[of "[newline] @ ind @ ''}'' @ rest"] key val
      by (simp add: f Nil m QuoteJSONString_def skip_ws_def is_json_ws_def)
  next
    case (Cons m2 ms2)
    let ?tail = "join ('','' @ [newline] @ ind')
              (map (\<lambda>(k, v). QuoteJSONString k @ '': '' @ serialize ind' v) ms)
            @ [newline] @ ind @ ''}'' @ rest"
    have hdq: "\<exists>cs. ?tail = CHR 0x22 # cs"
      by (cases m2; cases ms2) (simp_all add: Cons QuoteJSONString_def)
    then have st: "starts_value ?tail"
      by (auto simp: starts_value_def)
    have sk: "skip_ws ([newline] @ ind' @ ?tail) = ?tail"
      using skip_ws_break[OF sp(2), of ?tail] skip_ws_value[OF st] by simp
    have ih': "parse_members n ?tail = Some (ms, rest)"
      using Cons.prems ml Cons by (intro Cons.IH) auto
    have "join ('','' @ [newline] @ ind')
              (map (\<lambda>(k, v). QuoteJSONString k @ '': '' @ serialize ind' v) (m # ms))
            @ [newline] @ ind @ ''}'' @ rest
        = CHR 0x22 # concat (map quote_char k) @ CHR 0x22 # '': '' @ serialize ind' v
          @ ('','' @ [newline] @ ind' @ ?tail)"
      by (simp add: Cons m QuoteJSONString_def)
    then show ?thesis
      using px[of "'','' @ [newline] @ ind' @ ?tail"] sk ih' key val
      by (simp add: f m skip_ws_def is_json_ws_def)
  qed
qed


lemma set_property_new: "fst kv \<notin> fst ` set acc \<Longrightarrow> set_property acc kv = acc @ [kv]"
  by (induction acc) auto

lemma foldl_set_property:
  "distinct (map fst (acc @ ms)) \<Longrightarrow> foldl set_property acc ms = acc @ ms"
proof (induction ms arbitrary: acc)
  case Nil
  then show ?case by simp
next
  case (Cons m ms)
  have "set_property acc m = acc @ [m]"
    using Cons.prems by (intro set_property_new) auto
  moreover have "foldl set_property (acc @ [m]) ms = (acc @ [m]) @ ms"
    using Cons.prems by (intro Cons.IH) simp
  ultimately show ?case by simp
qed

lemma size_members: "size_list (\<lambda>m. size (snd m)) ms < size (JObj ms)"
proof -
  have "size_list (\<lambda>m. size (snd m)) ms \<le> size_list (size_prod (\<lambda>x. 0) size) ms"
    by (induction ms) (auto simp: size_prod_simp)
  then show ?thesis by simp
qed

lemma parse_array_open:
  "skip_ws cs = d # r \<Longrightarrow> d \<noteq> CHR '']'' \<Longrightarrow> parse_elements n (d # r) = Some (xs, r1) \<Longrightarrow>
     parse_value (Suc n) (CHR ''['' # cs) = Some (JArr xs, r1)"
  by simp

lemma parse_object_open:
  "skip_ws cs = d # r \<Longrightarrow> d \<noteq> CHR ''}'' \<Longrightarrow> parse_members n (d # r) = Some (ms, r1) \<Longrightarrow>
     parse_value (Suc n) (CHR ''{'' # cs) = Some (JObj (foldl set_property [] ms), r1)"
  by simp

lemma value_roundtrip:
  "plain v \<Longrightarrow> size v < f \<Longrightarrow> set ind \<subseteq> {CHR 0x20} \<Longrightarrow>
     parse_value f (serialize ind v @ rest) = Some (v, rest)"
proof (induction v arbitrary: f ind rest)
  case JNull
  then show ?case by (cases f) simp_all
next
  case (JBool b)
  then show ?case by (cases f) simp_all
next
  case (JNum n)
  then show ?case by simp
next
  case (JStr s)
  then show ?case
    using parse_quoted[of s rest] by (cases f) (simp_all add: QuoteJSONString_def)
next
  case (JArr xs)
  from JArr.prems(2) obtain n where f: "f = Suc n" and n: "size_list size xs < n"
    by (cases f) auto
  show ?case
  proof (cases "xs = []")
    case True
    then show ?thesis by (simp add: f skip_ws_def is_json_ws_def)
  next
    case False
    let ?body = "join ('','' @ [newline] @ (ind @ ''  '')) (map (serialize (ind @ ''  '')) xs)
                 @ [newline] @ ind @ '']'' @ rest"
    have sp': "set (ind @ ''  '') \<subseteq> {CHR 0x20}" using JArr.prems(3) by simp
    have el: "parse_elements n ?body = Some (xs, rest)"
    proof (rule elements_roundtrip[OF _ _ False JArr.prems(3) sp' n])
      show "list_all plain xs" using JArr.prems(1) by simp
      show "parse_value g (serialize i x @ r) = Some (x, r)"
        if "x \<in> set xs" "size x < g" "set i \<subseteq> {CHR 0x20}" for x g i r
        using JArr.IH[OF that(1) _ that(2,3)] JArr.prems(1) that(1)
        by (simp add: list_all_iff)
    qed
    have st: "starts_value ?body"
      using False JArr.prems(1)
      by (intro join_starts) (simp_all add: serialize_starts list_all_iff hd_map hd_in_set)
    then obtain d r where dr: "?body = d # r" and d: "d \<noteq> CHR '']''"
      by (auto simp: starts_value_def)
    have sk: "skip_ws ([newline] @ (ind @ ''  '') @ ?body) = ?body"
      using skip_ws_break[OF sp', of ?body] skip_ws_value[OF st] by simp
    have ser: "serialize ind (JArr xs) @ rest = CHR ''['' # ([newline] @ (ind @ ''  '') @ ?body)"
      using False by simp
    have sk': "skip_ws ([newline] @ (ind @ ''  '') @ ?body) = d # r"
      using sk dr by simp
    have el': "parse_elements n (d # r) = Some (xs, rest)"
      using el dr by simp
    show ?thesis
      unfolding ser f by (rule parse_array_open[OF sk' d el'])
  qed
next
  case (JObj ms)
  from JObj.prems(2) size_members[of ms] obtain n where f: "f = Suc n"
    and n: "size_list (\<lambda>m. size (snd m)) ms < n"
    by (cases f) auto
  show ?case
  proof (cases "ms = []")
    case True
    then show ?thesis by (simp add: f skip_ws_def is_json_ws_def)
  next
    case False
    let ?body = "join ('','' @ [newline] @ (ind @ ''  ''))
                   (map (\<lambda>(k, v). QuoteJSONString k @ '': '' @ serialize (ind @ ''  '') v) ms)
                 @ [newline] @ ind @ ''}'' @ rest"
    have sp': "set (ind @ ''  '') \<subseteq> {CHR 0x20}" using JObj.prems(3) by simp
    have el: "parse_members n ?body = Some (ms, rest)"
    proof (rule members_roundtrip[OF _ _ False JObj.prems(3) sp' n])
      show "list_all (\<lambda>m. plain (snd m)) ms" using JObj.prems(1) by simp
      show "parse_value g (serialize i (snd m) @ r) = Some (snd m, r)"
        if "m \<in> set ms" "size (snd m) < g" "set i \<subseteq> {CHR 0x20}" for m g i r
      proof -
        have "snd m \<in> Basic_BNFs.snds m" by (cases m) simp
        moreover have "plain (snd m)" using JObj.prems(1) that(1) by (simp add: list_all_iff)
        ultimately show ?thesis using JObj.IH[OF that(1) _ _ that(2,3)] by blast
      qed
    qed
    obtain m ms' where ms: "ms = m # ms'" using False by (cases ms) auto
    have "\<exists>cs. ?body = CHR 0x22 # cs"
      by (cases m; cases ms') (simp_all add: ms QuoteJSONString_def)
    then obtain r where dr: "?body = CHR 0x22 # r" by blast
    then have st: "starts_value ?body" by (simp add: starts_value_def)
    have sk: "skip_ws ([newline] @ (ind @ ''  '') @ ?body) = ?body"
      using skip_ws_break[OF sp', of ?body] skip_ws_value[OF st] by simp
    have fold: "foldl set_property [] ms = ms"
      using JObj.prems(1) by (intro foldl_set_property[of "[]" ms, simplified]) simp
    have ser: "serialize ind (JObj ms) @ rest = CHR ''{'' # ([newline] @ (ind @ ''  '') @ ?body)"
      using False by simp
    have sk': "skip_ws ([newline] @ (ind @ ''  '') @ ?body) = CHR 0x22 # r"
      using sk dr by simp
    have el': "parse_members n (CHR 0x22 # r) = Some (ms, rest)"
      using el dr by simp
    have "parse_value (Suc n) (CHR ''{'' # ([newline] @ (ind @ ''  '') @ ?body))
        = Some (JObj (foldl set_property [] ms), rest)"
      by (rule parse_object_open[OF sk' _ el']) simp
    then show ?thesis
      unfolding ser f fold .
  qed
qed


lemma size_list_le_join:
  assumes "\<And>x. x \<in> set xs \<Longrightarrow> f x < length (g x)"
  shows "size_list f xs \<le> length (join sep (map g xs))"
  using assms
proof (induction xs)
  case Nil
  then show ?case by simp
next
  case (Cons x xs)
  have x: "f x < length (g x)" using Cons.prems by simp
  have ih: "size_list f xs \<le> length (join sep (map g xs))" using Cons by simp
  show ?case using x ih by (cases xs) simp_all
qed

lemma size_lt_length_serialize: "plain v \<Longrightarrow> size v < length (serialize ind v)"
proof (induction v arbitrary: ind)
  case (JArr xs)
  have "size_list size xs \<le> length (join ('','' @ [newline] @ (ind @ ''  '')) (map (serialize (ind @ ''  '')) xs))"
    using JArr by (intro size_list_le_join) (simp add: list_all_iff)
  then show ?case by simp
next
  case (JObj ms)
  have "size_list (size_prod (\<lambda>x. 0) size) ms
      \<le> length (join ('','' @ [newline] @ (ind @ ''  ''))
           (map (\<lambda>(k, v). QuoteJSONString k @ '': '' @ serialize (ind @ ''  '') v) ms))"
  proof (rule size_list_le_join)
    fix m assume m: "m \<in> set ms"
    obtain k v where kv: "m = (k, v)" by (cases m)
    have "v \<in> Basic_BNFs.snds m" by (simp add: kv)
    moreover have "plain v" using JObj.prems m kv by (auto simp: list_all_iff)
    ultimately have "size v < length (serialize (ind @ ''  '') v)"
      using JObj.IH[OF m] by blast
    then show "size_prod (\<lambda>x. 0) size m
        < length ((\<lambda>(k, v). QuoteJSONString k @ '': '' @ serialize (ind @ ''  '') v) m)"
      by (simp add: kv)
  qed
  then show ?case by simp
qed (simp_all add: QuoteJSONString_def)

lemma parse_stringify: "plain v \<Longrightarrow> JSON_parse (JSON_stringify v) = Some v"
proof -
  assume p: "plain v"
  have st: "skip_ws (serialize [] v) = serialize [] v"
    by (rule skip_ws_value[OF serialize_starts[OF p]])
  have "parse_value (length (serialize [] v)) (serialize [] v @ []) = Some (v, [])"
    by (rule value_roundtrip[OF p size_lt_length_serialize[OF p]]) simp
  moreover have "skip_ws [] = []" by (simp add: skip_ws_def)
  ultimately show ?thesis
    by (simp add: JSON_parse_def JSON_stringify_def st)
qed

lemma plain_open_question_json: "plain (open_question_json q)"
  by (cases "oq_owner q"; cases "oq_due q") (simp_all add: open_question_json_def opt_prop_def)

lemma plain_next_step_json: "plain (next_step_json n)"
  by (cases "ns_owner n"; cases "ns_due n") (simp_all add: next_step_json_def opt_prop_def)

lemma plain_risk_json: "plain (risk_json r)"
  by (cases "rk_mitigation r") (simp_all add: risk_json_def opt_prop_def)

lemma plain_stakeholder_json: "plain (stakeholder_json h)"
  by (cases "sh_role h"; cases "sh_influence h") (simp_all add: stakeholder_json_def opt_prop_def)

lemma plain_evidence_json: "plain (evidence_json e)"
  by (simp add: evidence_json_def)

lemma plain_context_json: "plain (context_json c)"
  by (cases "last_updated c")
     (simp_all add: context_json_def opt_prop_def list_all_iff plain_open_question_json
        plain_next_step_json plain_risk_json plain_stakeholder_json plain_evidence_json)

lemma plain_input_json: "plain (input_json i)"
  by (cases "deal_id i"; cases "deal_name i"; cases "source_canvas_name i"; cases "doc_title i")
     (simp_all add: input_json_def opt_prop_def plain_context_json)

section \<open>The structured payload of a summary\<close>

lemma join_append:
  "xs \<noteq> [] \<Longrightarrow> ys \<noteq> [] \<Longrightarrow> join sep (xs @ ys) = join sep xs @ sep @ join sep ys"
proof (induction sep xs rule: join.induct)
  case (1 sep)
  then show ?case by simp
next
  case (2 sep x)
  then show ?case by (cases ys) simp_all
next
  case (3 sep x y zs)
  then show ?case by simp
qed

lemma formatSummary_payload:
  assumes "output_format input \<noteq> Exec_bullets"
  shows "formatSummary input
       = formatSummary (input\<lparr>output_format := Exec_bullets\<rparr>)
         @ [newline] @ [newline] @ ''### Structured Payload (for ETL)'' @ [newline]
         @ ''```json'' @ [newline] @ JSON_stringify (input_json input) @ [newline] @ ''```''"
proof -
  define base where "base =
     [''## Deal Summary'',
      ''- Deal: '' @ clean (case deal_name input of
                         Some n \<Rightarrow> n
                       | None \<Rightarrow> (case deal_id input of Some d \<Rightarrow> d | None \<Rightarrow> ''Unspecified'')),
      ''- Summary: '' @ clean (summary (ctx input))]
     @ (if truthy (deal_name input) then meta_entry ''- Deal ID: '' (deal_id input) else [])
     @ meta_entry ''- Source Canvas: '' (source_canvas_name input)
     @ meta_entry ''- Last Updated: '' (last_updated (ctx input))
     @ [ [], ''## Key Points'', formatList (key_points (ctx input))]
     @ [ [], ''## Risks'', formatRisks (risks (ctx input))]
     @ [ [], ''## Open Questions'', formatQuestions (open_questions (ctx input))]
     @ [ [], ''## Next Steps'', formatNextSteps (next_steps (ctx input))]
     @ [ [], ''## Stakeholders'', formatStakeholders (stakeholders (ctx input))]"
  have a: "formatSummary input = join [newline] (base @ payload_lines input)"
    using assms by (simp add: formatSummary_def Let_def base_def)
  have b: "formatSummary (input\<lparr>output_format := Exec_bullets\<rparr>) = join [newline] base"
    by (simp add: formatSummary_def Let_def base_def cong: option.case_cong)
  have ne: "base \<noteq> []" by (simp add: base_def)
  have "join [newline] (base @ payload_lines input)
      = join [newline] base @ [newline] @ join [newline] (payload_lines input)"
    using ne by (intro join_append) (simp_all add: payload_lines_def)
  then show ?thesis
    unfolding a b by (simp add: payload_lines_def)
qed

lemma split_lines_append_break:
  "split_lines (a @ newline # b) = split_lines a @ split_lines b"
  by (induction a) (auto split: list.splits)

lemma split_lines_join_concat:
  "ls \<noteq> [] \<Longrightarrow> split_lines (join [newline] ls) = concat (map split_lines ls)"
proof (induction "[newline]" ls rule: join.induct)
  case 1
  then show ?case by simp
next
  case (2 x)
  then show ?case by simp
next
  case (3 x y ys)
  then show ?case by (simp add: split_lines_append_break)
qed

lemma item_lines_plain:
  "list_all plain_line (map list_line ks)" "list_all plain_line (map question_line qs)"
  "list_all plain_line (map next_step_line ns)" "list_all plain_line (map risk_line rs)"
  "list_all plain_line (map stakeholder_line ss)" "plain_line (more_line n)"
  by (simp_all add: list_all_iff plain_line_def list_line_def question_line_def next_step_line_def
        risk_line_def stakeholder_line_def more_line_def Let_def)

lemma section_lines_plain:
  "list_all plain_line (split_lines (formatList ks))"
  "list_all plain_line (split_lines (formatQuestions qs))"
  "list_all plain_line (split_lines (formatNextSteps ns))"
  "list_all plain_line (split_lines (formatRisks rs))"
  "list_all plain_line (split_lines (formatStakeholders ss))"
  using item_lines_plain(1)[of "take 8 ks"] item_lines_plain(1)[of ks]
    item_lines_plain(2)[of "take 8 qs"] item_lines_plain(2)[of qs]
    item_lines_plain(3)[of "take 8 ns"] item_lines_plain(3)[of ns]
    item_lines_plain(4)[of "take 8 rs"] item_lines_plain(4)[of rs]
    item_lines_plain(5)[of "take 8 ss"] item_lines_plain(5)[of ss]
    item_lines_plain(6)
  by (simp_all add: formatList_lines formatQuestions_lines formatNextSteps_lines
        formatRisks_lines formatStakeholders_lines)
     (simp_all add: plain_line_def)

lemma meta_entry_plain:
  "newline \<notin> set label \<Longrightarrow> prefix ''- '' label \<Longrightarrow>
     list_all (\<lambda>e. list_all plain_line (split_lines e)) (meta_entry label field)"
  by (cases field) (auto simp: meta_entry_def split_lines_single plain_line_def)

lemma exec_bullets_lines:
  assumes "output_format input = Exec_bullets"
  shows "list_all plain_line (split_lines (formatSummary input))"
proof -
  define base where "base =
     [''## Deal Summary'',
      ''- Deal: '' @ clean (case deal_name input of
                         Some n \<Rightarrow> n
                       | None \<Rightarrow> (case deal_id input of Some d \<Rightarrow> d | None \<Rightarrow> ''Unspecified'')),
      ''- Summary: '' @ clean (summary (ctx input))]
     @ (if truthy (deal_name input) then meta_entry ''- Deal ID: '' (deal_id input) else [])
     @ meta_entry ''- Source Canvas: '' (source_canvas_name input)
     @ meta_entry ''- Last Updated: '' (last_updated (ctx input))
     @ [ [], ''## Key Points'', formatList (key_points (ctx input))]
     @ [ [], ''## Risks'', formatRisks (risks (ctx input))]
     @ [ [], ''## Open Questions'', formatQuestions (open_questions (ctx input))]
     @ [ [], ''## Next Steps'', formatNextSteps (next_steps (ctx input))]
     @ [ [], ''## Stakeholders'', formatStakeholders (stakeholders (ctx input))]"
  have b: "formatSummary input = join [newline] base"
    using assms by (simp add: formatSummary_def Let_def base_def)
  have ne: "base \<noteq> []" by (simp add: base_def)
  have h1: "list_all plain_line (split_lines ''## Deal Summary'')"
    "list_all plain_line (split_lines ''## Key Points'')"
    "list_all plain_line (split_lines ''## Risks'')"
    "list_all plain_line (split_lines ''## Open Questions'')"
    "list_all plain_line (split_lines ''## Next Steps'')"
    "list_all plain_line (split_lines ''## Stakeholders'')"
    "list_all plain_line (split_lines [])"
    by (simp_all add: plain_line_def newline_def)
  have h2: "list_all plain_line (split_lines (''- Deal: '' @ clean s))"
    "list_all plain_line (split_lines (''- Summary: '' @ clean s))" for s
    by (simp_all add: split_lines_single plain_line_def, simp_all add: newline_def)
  have m: "list_all (\<lambda>e. list_all plain_line (split_lines e)) (meta_entry ''- Deal ID: '' f)"
    "list_all (\<lambda>e. list_all plain_line (split_lines e)) (meta_entry ''- Source Canvas: '' f)"
    "list_all (\<lambda>e. list_all plain_line (split_lines e)) (meta_entry ''- Last Updated: '' f)" for f
    by (rule meta_entry_plain; simp add: newline_def)+
  have "list_all (\<lambda>e. list_all plain_line (split_lines e)) base"
    unfolding base_def using h1 h2 m section_lines_plain by simp
  then have "list_all plain_line (concat (map split_lines base))"
    by (induction base) simp_all
  then show ?thesis
    unfolding b split_lines_join_concat[OF ne] .
qed

text \<open>
  Claim C4. When the output format of a validated request is \<open>se_deal_update\<close> or \<open>memo\<close>,
  the formatted text is the text the same request gives under \<open>exec_bullets\<close>, followed
  by an empty line, the heading \<open>### Structured Payload (for ETL)\<close>, the fence line
  \<open>```json\<close>, the JSON text of the request with an indentation of two spaces, and the
  closing fence line; parsing that JSON text gives back the object of the request, property
  for property and in the same order. When the output format is \<open>exec_bullets\<close>, no line
  of the formatted text starts with a fence.
\<close>

theorem structured_payload_roundtrip:
  "(output_format input \<noteq> Exec_bullets \<longrightarrow>
      formatSummary input
        = formatSummary (input\<lparr>output_format := Exec_bullets\<rparr>)
          @ [newline] @ [newline] @ ''### Structured Payload (for ETL)'' @ [newline]
          @ ''```json'' @ [newline] @ JSON_stringify (input_json input) @ [newline] @ ''```''
    \<and> JSON_parse (JSON_stringify (input_json input)) = Some (input_json input))
   \<and> (output_format input = Exec_bullets \<longrightarrow>
        list_all (\<lambda>l. \<not> prefix ''```'' l) (split_lines (formatSummary input)))"
proof (intro conjI impI)
  assume "output_format input \<noteq> Exec_bullets"
  then show "formatSummary input
        = formatSummary (input\<lparr>output_format := Exec_bullets\<rparr>)
          @ [newline] @ [newline] @ ''### Structured Payload (for ETL)'' @ [newline]
          @ ''```json'' @ [newline] @ JSON_stringify (input_json input) @ [newline] @ ''```''"
    by (rule formatSummary_payload)
next
  show "JSON_parse (JSON_stringify (input_json input)) = Some (input_json input)"
    by (rule parse_stringify[OF plain_input_json])
next
  assume "output_format input = Exec_bullets"
  then have "list_all plain_line (split_lines (formatSummary input))"
    by (rule exec_bullets_lines)
  moreover have "\<not> prefix ''```'' l" if "plain_line l" for l
    using that by (auto simp: plain_line_def prefix_def)
  ultimately show "list_all (\<lambda>l. \<not> prefix ''```'' l) (split_lines (formatSummary input))"
    by (simp add: list_all_iff)
qed

text \<open>C4 at the minimal request, as a memo and as executive bullets.\<close>

theorem structured_payload_roundtrip_witness:
  "output_format (minimal_input\<lparr>output_format := Memo\<rparr>) \<noteq> Exec_bullets
   \<and> formatSummary (minimal_input\<lparr>output_format := Memo\<rparr>)
     = formatSummary minimal_input
       @ [newline] @ [newline] @ ''### Structured Payload (for ETL)'' @ [newline]
       @ ''```json'' @ [newline]
       @ JSON_stringify (input_json (minimal_input\<lparr>output_format := Memo\<rparr>))
       @ [newline] @ ''```''
   \<and> JSON_parse (JSON_stringify (input_json (minimal_input\<lparr>output_format := Memo\<rparr>)))
     = Some (input_json (minimal_input\<lparr>output_format := Memo\<rparr>))
   \<and> output_format minimal_input = Exec_bullets
   \<and> list_all (\<lambda>l. \<not> prefix ''```'' l) (split_lines (formatSummary minimal_input))"
proof -
  have eq: "(minimal_input\<lparr>output_format := Memo\<rparr>)\<lparr>output_format := Exec_bullets\<rparr> = minimal_input"
    by (simp add: minimal_input_def)
  show ?thesis
    using structured_payload_roundtrip[of "minimal_input\<lparr>output_format := Memo\<rparr>"]
      structured_payload_roundtrip[of minimal_input]
    unfolding eq by (simp add: minimal_input_def)
qed

section \<open>Properties of the webhook pusher\<close>

lemma config_none_iff:
  "getDocWebhookConfig w = None \<longleftrightarrow>
     DOC_WEBHOOK_URL w = None \<or> DOC_WEBHOOK_URL w = Some [] \<or>
     DOC_WEBHOOK_TOKEN w = None \<or> DOC_WEBHOOK_TOKEN w = Some []"
  by (auto simp: getDocWebhookConfig_def split: option.splits)

lemma http_diagnostic_distinct:
  "''Webhook HTTP '' @ show_nat status @ '': '' @ take 300 body \<noteq> NOT_CONFIGURED"
  by (simp add: NOT_CONFIGURED_def)

text \<open>
  Claim C6. The pusher reports success exactly when it is configured and its one POST
  completes with a status from 200 to 399. When it is configured it issues exactly one
  \<open>fetch\<close>. A completed POST with any other status gives the failure
  \<open>Webhook HTTP <status>: \<close> followed by the first 300 characters of the response body (none
  if the body cannot be read), which never equals the not-configured message. A rejected
  \<open>fetch\<close> gives a failure carrying the error's text. When the URL or the token is
  missing or empty the result is the not-configured failure and the world is unchanged:
  no \<open>fetch\<close> is issued.
\<close>

theorem webhook_pusher_outcomes:
  "(fst (pushSummaryToDocWebhook w title text) = PushOk \<longleftrightarrow>
      (\<exists>cfg status body.
          getDocWebhookConfig w = Some cfg
        \<and> network w (length (fetched w)) (webhook_call cfg title text) = Responded status body
        \<and> 200 \<le> status \<and> status \<le> 399))
   \<and> (\<forall>cfg. getDocWebhookConfig w = Some cfg \<longrightarrow>
          fetched (snd (pushSummaryToDocWebhook w title text))
            = fetched w @ [webhook_call cfg title text])
   \<and> (\<forall>cfg status body.
          getDocWebhookConfig w = Some cfg
        \<and> network w (length (fetched w)) (webhook_call cfg title text) = Responded status body
        \<and> \<not> (200 \<le> status \<and> status \<le> 399) \<longrightarrow>
          fst (pushSummaryToDocWebhook w title text)
            = PushFailed (''Webhook HTTP '' @ show_nat status @ '': ''
                          @ take 300 (case body of None \<Rightarrow> [] | Some b \<Rightarrow> b))
        \<and> ''Webhook HTTP '' @ show_nat status @ '': ''
              @ take 300 (case body of None \<Rightarrow> [] | Some b \<Rightarrow> b) \<noteq> NOT_CONFIGURED)
   \<and> (\<forall>cfg error.
          getDocWebhookConfig w = Some cfg
        \<and> network w (length (fetched w)) (webhook_call cfg title text) = Rejected error \<longrightarrow>
          fst (pushSummaryToDocWebhook w title text) = PushFailed error)
   \<and> (DOC_WEBHOOK_URL w = None \<or> DOC_WEBHOOK_URL w = Some [] \<or>
       DOC_WEBHOOK_TOKEN w = None \<or> DOC_WEBHOOK_TOKEN w = Some [] \<longrightarrow>
          pushSummaryToDocWebhook w title text = (PushFailed NOT_CONFIGURED, w))"
proof (intro conjI allI impI)
  show "fst (pushSummaryToDocWebhook w title text) = PushOk \<longleftrightarrow>
      (\<exists>cfg status body.
          getDocWebhookConfig w = Some cfg
        \<and> network w (length (fetched w)) (webhook_call cfg title text) = Responded status body
        \<and> 200 \<le> status \<and> status \<le> 399)"
    by (auto simp: pushSummaryToDocWebhook_def fetch_def split: option.splits fetch_outcome.splits)
next
  fix cfg assume "getDocWebhookConfig w = Some cfg"
  then show "fetched (snd (pushSummaryToDocWebhook w title text))
            = fetched w @ [webhook_call cfg title text]"
    by (auto simp: pushSummaryToDocWebhook_def fetch_def split: fetch_outcome.splits)
next
  fix cfg status body
  assume "getDocWebhookConfig w = Some cfg
        \<and> network w (length (fetched w)) (webhook_call cfg title text) = Responded status body
        \<and> \<not> (200 \<le> status \<and> status \<le> 399)"
  then show "fst (pushSummaryToDocWebhook w title text)
            = PushFailed (''Webhook HTTP '' @ show_nat status @ '': ''
                          @ take 300 (case body of None \<Rightarrow> [] | Some b \<Rightarrow> b))"
    by (auto simp: pushSummaryToDocWebhook_def fetch_def)
next
  fix cfg :: "string \<times> string" and status :: nat and body :: "string option"
  show "''Webhook HTTP '' @ show_nat status @ '': ''
              @ take 300 (case body of None \<Rightarrow> [] | Some b \<Rightarrow> b) \<noteq> NOT_CONFIGURED"
    by (rule http_diagnostic_distinct)
next
  fix cfg error
  assume "getDocWebhookConfig w = Some cfg
        \<and> network w (length (fetched w)) (webhook_call cfg title text) = Rejected error"
  then show "fst (pushSummaryToDocWebhook w title text) = PushFailed error"
    by (auto simp: pushSummaryToDocWebhook_def fetch_def)
next
  assume "DOC_WEBHOOK_URL w = None \<or> DOC_WEBHOOK_URL w = Some [] \<or>
       DOC_WEBHOOK_TOKEN w = None \<or> DOC_WEBHOOK_TOKEN w = Some []"
  then have "getDocWebhookConfig w = None" by (simp add: config_none_iff)
  then show "pushSummaryToDocWebhook w title text = (PushFailed NOT_CONFIGURED, w)"
    by (simp add: pushSummaryToDocWebhook_def)
qed

text \<open>C6 at a sink answering 302, one answering 500, one that cannot be reached, and a
  deployment without token.\<close>

theorem webhook_pusher_outcomes_witness:
  "fst (pushSummaryToDocWebhook (sink (Responded 302 None)) ''T'' ''x'') = PushOk
   \<and> fetched (snd (pushSummaryToDocWebhook (sink (Responded 302 None)) ''T'' ''x''))
       = [webhook_call (''https://sink.example/exec'', ''s3cret'') ''T'' ''x'']
   \<and> fst (pushSummaryToDocWebhook (sink (Responded 500 (Some ''busy''))) ''T'' ''x'')
       = PushFailed (''Webhook HTTP '' @ show_nat 500 @ '': busy'')
   \<and> fst (pushSummaryToDocWebhook (sink (Rejected ''TypeError: fetch failed'')) ''T'' ''x'')
       = PushFailed ''TypeError: fetch failed''
   \<and> pushSummaryToDocWebhook ((sink (Responded 200 None))\<lparr>DOC_WEBHOOK_TOKEN := None\<rparr>) ''T'' ''x''
       = (PushFailed NOT_CONFIGURED, (sink (Responded 200 None))\<lparr>DOC_WEBHOOK_TOKEN := None\<rparr>)"
  using webhook_pusher_outcomes[of "sink (Responded 302 None)" "''T''" "''x''"]
    webhook_pusher_outcomes[of "sink (Responded 500 (Some ''busy''))" "''T''" "''x''"]
    webhook_pusher_outcomes[of "sink (Rejected ''TypeError: fetch failed'')" "''T''" "''x''"]
    webhook_pusher_outcomes[of "(sink (Responded 200 None))\<lparr>DOC_WEBHOOK_TOKEN := None\<rparr>" "''T''" "''x''"]
  by (simp add: sink_def getDocWebhookConfig_def)

section \<open>Properties of the dispatcher\<close>

lemma summarize_context_result:
  "\<exists>r. fst (summarize_context w rid args) = Some (makeResult rid r)"
  by (auto simp: summarize_context_def Let_def split: sum.splits prod.splits)

lemma tools_call_result:
  "\<exists>r. fst (tools_call w rid envelope) = Some (makeResult rid r)"
  using summarize_context_result by (auto simp: tools_call_def Let_def)

lemma handleMessage_envelope:
  assumes "map_of envelope ''jsonrpc'' = Some (JStr ''2.0'')"
    and "map_of envelope ''method'' = Some (JStr method)" and "method \<noteq> []"
  shows "handleMessage w (JObj envelope) =
     (let hasId = (map_of envelope ''id'' \<noteq> None);
          rid = (case map_of envelope ''id'' of Some v \<Rightarrow> coerceJsonRpcId v | None \<Rightarrow> JNull)
      in if method = ''initialized'' \<or> method = ''notifications/initialized'' then
           (if hasId then Some (makeResult rid (JObj [])) else None, log Info ''mcp.initialized'' w)
         else if \<not> hasId then (None, log Warn ''mcp.notification.ignored'' w)
         else if method = ''initialize'' then
           (Some (makeResult rid
                    (JObj [(''protocolVersion'', JStr PROTOCOL_VERSION),
                           (''capabilities'',
                              JObj [(''tools'', JObj [(''listChanged'', JBool False)])]),
                           (''serverInfo'',
                              JObj [(''name'', JStr SERVER_NAME),
                                    (''version'', JStr SERVER_VERSION)])])),
            log Info ''mcp.initialize'' w)
         else if method = ''tools/list'' then
           (Some (makeResult rid (JObj [(''tools'', JArr TOOL_DEFS)])), log Info ''mcp.tools.list'' w)
         else if method = ''tools/call'' then tools_call w rid envelope
         else
           (Some (makeError rid (- 32601) ''Method not found''
                    (Some (JObj [(''method'', JStr method)]))),
            log Warn ''mcp.method.not_found'' w))"
  using assms by (simp add: handleMessage_def Let_def)

text \<open>
  Claim C7, amended. Take an envelope with \<open>jsonrpc: "2.0"\<close> whose method is a
  non-empty string. Without an id, and with a method other than \<open>initialized\<close> and
  \<open>notifications/initialized\<close>, the dispatcher produces no response. With an id it always
  produces a response; for a method outside the five it knows, that response is the error
  -32601 carrying the request's id. The two \<open>initialized\<close> variants produce a response
  exactly when an id was supplied.
\<close>

theorem notification_semantics:
  assumes "map_of envelope ''jsonrpc'' = Some (JStr ''2.0'')"
    and "map_of envelope ''method'' = Some (JStr method)"
    and "method \<noteq> []"
  shows "(map_of envelope ''id'' = None \<and> method \<noteq> ''initialized''
            \<and> method \<noteq> ''notifications/initialized'' \<longrightarrow>
            fst (handleMessage w (JObj envelope)) = None)
       \<and> (map_of envelope ''id'' \<noteq> None \<longrightarrow> fst (handleMessage w (JObj envelope)) \<noteq> None)
       \<and> (map_of envelope ''id'' \<noteq> None
            \<and> method \<notin> set [''initialized'', ''notifications/initialized'', ''initialize'',
                              ''tools/list'', ''tools/call''] \<longrightarrow>
            fst (handleMessage w (JObj envelope))
              = Some (makeError (case map_of envelope ''id'' of
                                   Some v \<Rightarrow> coerceJsonRpcId v | None \<Rightarrow> JNull)
                        (- 32601) ''Method not found'' (Some (JObj [(''method'', JStr method)]))))
       \<and> (method = ''initialized'' \<or> method = ''notifications/initialized'' \<longrightarrow>
            (fst (handleMessage w (JObj envelope)) \<noteq> None \<longleftrightarrow> map_of envelope ''id'' \<noteq> None))"
proof -
  obtain r where r: "fst (tools_call w (case map_of envelope ''id'' of Some v \<Rightarrow> coerceJsonRpcId v | None \<Rightarrow> JNull) envelope) = Some r"
    using tools_call_result by blast
  show ?thesis
    unfolding handleMessage_envelope[OF assms] Let_def
    using r by (auto simp del: map_of_eq_None_iff)
qed


text \<open>
  C7 at four envelopes: \<open>ping\<close> without and with an id, \<open>initialized\<close> without an id,
  \<open>notifications/initialized\<close> with the id \<open>null\<close>.
\<close>

theorem notification_semantics_witness:
  "fst (handleMessage unconfigured (JObj [(''jsonrpc'', JStr ''2.0''), (''method'', JStr ''ping'')]))
     = None
   \<and> fst (handleMessage unconfigured
          (JObj [(''jsonrpc'', JStr ''2.0''), (''id'', JStr ''a''), (''method'', JStr ''ping'')]))
     = Some (makeError (JStr ''a'') (- 32601) ''Method not found''
               (Some (JObj [(''method'', JStr ''ping'')])))
   \<and> fst (handleMessage unconfigured
          (JObj [(''jsonrpc'', JStr ''2.0''), (''method'', JStr ''initialized'')]))
     = None
   \<and> fst (handleMessage unconfigured
          (JObj [(''jsonrpc'', JStr ''2.0''), (''id'', JNull),
                 (''method'', JStr ''notifications/initialized'')]))
     \<noteq> None"
  using notification_semantics[of "[(''jsonrpc'', JStr ''2.0''), (''method'', JStr ''ping'')]"
      "''ping''" unconfigured]
    notification_semantics[of "[(''jsonrpc'', JStr ''2.0''), (''id'', JStr ''a''), (''method'', JStr ''ping'')]"
      "''ping''" unconfigured]
    notification_semantics[of "[(''jsonrpc'', JStr ''2.0''), (''method'', JStr ''initialized'')]"
      "''initialized''" unconfigured]
    notification_semantics[of "[(''jsonrpc'', JStr ''2.0''), (''id'', JNull), (''method'', JStr ''notifications/initialized'')]"
      "''notifications/initialized''" unconfigured]
  by (simp add: coerceJsonRpcId_def)

text \<open>
  Claim C7 as stated counts every string as a method. The envelope
  \<open>{"jsonrpc": "2.0", "method": ""}\<close> has a string method that is not one of the
  \<open>initialized\<close> variants and has no id, and yet it is answered: the empty string is treated
  as a missing method and rejected with the error -32600 under the id \<open>null\<close>.
\<close>

theorem empty_method_counterexample:
  "map_of [(''jsonrpc'', JStr ''2.0''), (''method'', JStr [])] ''jsonrpc'' = Some (JStr ''2.0'')
   \<and> map_of [(''jsonrpc'', JStr ''2.0''), (''method'', JStr [])] ''method'' = Some (JStr [])
   \<and> map_of [(''jsonrpc'', JStr ''2.0''), (''method'', JStr [])] ''id'' = None
   \<and> fst (handleMessage unconfigured (JObj [(''jsonrpc'', JStr ''2.0''), (''method'', JStr [])]))
       = Some (makeError JNull (- 32600) ''Invalid Request'' (Some (JStr ''Missing method.'')))"
  by (simp add: handleMessage_def)

lemma tools_call_no_params:
  "\<not> isObject (map_of envelope ''params'') \<Longrightarrow>
     tools_call w rid envelope
       = (Some (makeResult rid (toolResult ''Validation error: tool name is required.'' True)),
          log Warn ''mcp.tools.call.invalid'' w)"
  by (auto simp: tools_call_def Let_def object_or_empty_def isObject_def split: option.splits json.splits)

text \<open>
  Claim C10. Take a \<open>tools/call\<close> envelope with \<open>jsonrpc: "2.0"\<close> and an id. Whatever
  its params are, the response is a JSON-RPC result under the request's id, never a
  JSON-RPC error. If \<open>params\<close> is absent or not an object it is handled as \<open>{}\<close>, and if
  \<open>params.arguments\<close> is absent or not an object it is handled as \<open>{}\<close>: the outcome is
  the one of the envelope with the empty object written in. If \<open>params.name\<close> is absent or
  not a string, the result is the tool-level error
  \<open>Validation error: tool name is required.\<close> with \<open>isError: true\<close>.
\<close>

theorem tools_call_defaults:
  assumes "map_of envelope ''jsonrpc'' = Some (JStr ''2.0'')"
    and "map_of envelope ''method'' = Some (JStr ''tools/call'')"
    and "map_of envelope ''id'' = Some v"
  shows "(\<exists>r. fst (handleMessage w (JObj envelope)) = Some (makeResult (coerceJsonRpcId v) r))
       \<and> (\<not> isObject (map_of envelope ''params'') \<longrightarrow>
            handleMessage w (JObj envelope)
              = handleMessage w (JObj ((''params'', JObj []) # envelope)))
       \<and> (\<forall>params. map_of envelope ''params'' = Some (JObj params)
                     \<and> \<not> isObject (map_of params ''arguments'') \<longrightarrow>
            handleMessage w (JObj envelope)
              = handleMessage w
                  (JObj ((''params'', JObj ((''arguments'', JObj []) # params)) # envelope)))
       \<and> ((\<forall>name. map_of (object_or_empty (map_of envelope ''params'')) ''name'' \<noteq> Some (JStr name)) \<longrightarrow>
            fst (handleMessage w (JObj envelope))
              = Some (makeResult (coerceJsonRpcId v)
                        (toolResult ''Validation error: tool name is required.'' True)))"
proof (intro conjI impI allI)
  have hm: "\<And>env. map_of env ''jsonrpc'' = Some (JStr ''2.0'') \<Longrightarrow>
      map_of env ''method'' = Some (JStr ''tools/call'') \<Longrightarrow> map_of env ''id'' = Some v \<Longrightarrow>
      handleMessage w (JObj env) = tools_call w (coerceJsonRpcId v) env"
    by (simp add: handleMessage_def Let_def)
  note h = hm[OF assms]
  show "\<exists>r. fst (handleMessage w (JObj envelope)) = Some (makeResult (coerceJsonRpcId v) r)"
    unfolding h by (rule tools_call_result)
  show "handleMessage w (JObj envelope) = handleMessage w (JObj ((''params'', JObj []) # envelope))"
    if "\<not> isObject (map_of envelope ''params'')"
  proof -
    have "handleMessage w (JObj ((''params'', JObj []) # envelope))
        = tools_call w (coerceJsonRpcId v) ((''params'', JObj []) # envelope)"
      using assms by (intro hm) simp_all
    moreover have "tools_call w (coerceJsonRpcId v) ((''params'', JObj []) # envelope)
        = tools_call w (coerceJsonRpcId v) envelope"
      using that by (simp add: tools_call_no_params) (simp add: tools_call_def object_or_empty_def)
    ultimately show ?thesis using h by simp
  qed
  show "handleMessage w (JObj envelope)
      = handleMessage w (JObj ((''params'', JObj ((''arguments'', JObj []) # params)) # envelope))"
    if "map_of envelope ''params'' = Some (JObj params) \<and> \<not> isObject (map_of params ''arguments'')"
    for params
  proof -
    have "handleMessage w (JObj ((''params'', JObj ((''arguments'', JObj []) # params)) # envelope))
        = tools_call w (coerceJsonRpcId v)
            ((''params'', JObj ((''arguments'', JObj []) # params)) # envelope)"
      using assms by (intro hm) simp_all
    moreover have "tools_call w (coerceJsonRpcId v)
            ((''params'', JObj ((''arguments'', JObj []) # params)) # envelope)
        = tools_call w (coerceJsonRpcId v) envelope"
      using that
      by (auto simp: tools_call_def object_or_empty_def isObject_def Let_def
               split: option.splits json.splits)
    ultimately show ?thesis using h by simp
  qed
  show "fst (handleMessage w (JObj envelope))
      = Some (makeResult (coerceJsonRpcId v)
                (toolResult ''Validation error: tool name is required.'' True))"
    if "\<forall>name. map_of (object_or_empty (map_of envelope ''params'')) ''name'' \<noteq> Some (JStr name)"
    unfolding h using that
    by (auto simp: tools_call_def Let_def split: option.splits json.splits)
qed


text \<open>
  C10 at an envelope without params, one whose name is a number and whose arguments are a
  string, and a call of \<open>summarize_context\<close> whose arguments are a number.
\<close>

theorem tools_call_defaults_witness:
  "fst (handleMessage unconfigured
          (JObj [(''jsonrpc'', JStr ''2.0''), (''id'', JNum 7), (''method'', JStr ''tools/call'')]))
     = Some (makeResult (JNum 7) (toolResult ''Validation error: tool name is required.'' True))
   \<and> fst (handleMessage unconfigured
          (JObj [(''jsonrpc'', JStr ''2.0''), (''id'', JNum 7), (''method'', JStr ''tools/call''),
                 (''params'', JObj [(''name'', JNum 3), (''arguments'', JStr ''x'')])]))
     = Some (makeResult (JNum 7) (toolResult ''Validation error: tool name is required.'' True))
   \<and> handleMessage unconfigured
          (JObj [(''jsonrpc'', JStr ''2.0''), (''id'', JNum 7), (''method'', JStr ''tools/call''),
                 (''params'', JObj [(''name'', JStr ''summarize_context''), (''arguments'', JNum 5)])])
     = handleMessage unconfigured
          (JObj [(''params'', JObj [(''arguments'', JObj []), (''name'', JStr ''summarize_context''),
                                    (''arguments'', JNum 5)]),
                 (''jsonrpc'', JStr ''2.0''), (''id'', JNum 7), (''method'', JStr ''tools/call''),
                 (''params'', JObj [(''name'', JStr ''summarize_context''), (''arguments'', JNum 5)])])"
proof (intro conjI)
  show "fst (handleMessage unconfigured
          (JObj [(''jsonrpc'', JStr ''2.0''), (''id'', JNum 7), (''method'', JStr ''tools/call'')]))
     = Some (makeResult (JNum 7) (toolResult ''Validation error: tool name is required.'' True))"
    using tools_call_defaults[of "[(''jsonrpc'', JStr ''2.0''), (''id'', JNum 7), (''method'', JStr ''tools/call'')]"
      "JNum 7" unconfigured]
    by (simp add: coerceJsonRpcId_def object_or_empty_def)
  show "fst (handleMessage unconfigured
          (JObj [(''jsonrpc'', JStr ''2.0''), (''id'', JNum 7), (''method'', JStr ''tools/call''),
                 (''params'', JObj [(''name'', JNum 3), (''arguments'', JStr ''x'')])]))
     = Some (makeResult (JNum 7) (toolResult ''Validation error: tool name is required.'' True))"
    using tools_call_defaults[of "[(''jsonrpc'', JStr ''2.0''), (''id'', JNum 7), (''method'', JStr ''tools/call''),
                 (''params'', JObj [(''name'', JNum 3), (''arguments'', JStr ''x'')])]"
      "JNum 7" unconfigured]
    by (simp add: coerceJsonRpcId_def object_or_empty_def)
  show "handleMessage unconfigured
          (JObj [(''jsonrpc'', JStr ''2.0''), (''id'', JNum 7), (''method'', JStr ''tools/call''),
                 (''params'', JObj [(''name'', JStr ''summarize_context''), (''arguments'', JNum 5)])])
     = handleMessage unconfigured
          (JObj [(''params'', JObj [(''arguments'', JObj []), (''name'', JStr ''summarize_context''),
                                    (''arguments'', JNum 5)]),
                 (''jsonrpc'', JStr ''2.0''), (''id'', JNum 7), (''method'', JStr ''tools/call''),
                 (''params'', JObj [(''name'', JStr ''summarize_context''), (''arguments'', JNum 5)])])"
    using tools_call_defaults[of "[(''jsonrpc'', JStr ''2.0''), (''id'', JNum 7), (''method'', JStr ''tools/call''),
                 (''params'', JObj [(''name'', JStr ''summarize_context''), (''arguments'', JNum 5)])]"
      "JNum 7" unconfigured]
    by (simp add: isObject_def)
qed

section \<open>Properties of the HTTP handler\<close>

lemma response_at_0: "response_at w (m # ms) 0 = fst (handleMessage w m)"
  by (simp add: response_at_def)

lemma response_at_Suc:
  "response_at w (m # ms) (Suc i) = response_at (snd (handleMessage w m)) ms i"
  by (simp add: response_at_def)

lemma map_filter_upt_Cons:
  "List.map_filter (response_at w (m # ms)) [0..<Suc (length ms)]
     = (case fst (handleMessage w m) of None \<Rightarrow> [] | Some r \<Rightarrow> [r])
       @ List.map_filter (response_at (snd (handleMessage w m)) ms) [0..<length ms]"
proof -
  have "[0..<Suc (length ms)] = 0 # map Suc [0..<length ms]"
    by (simp add: upt_conv_Cons map_Suc_upt del: upt_Suc)
  moreover have "List.map_filter (response_at w (m # ms)) (map Suc [0..<length ms])
      = List.map_filter (response_at (snd (handleMessage w m)) ms) [0..<length ms]"
    by (simp add: List.map_filter_def filter_map comp_def response_at_Suc)
  ultimately show ?thesis
    by (simp add: List.map_filter_simps response_at_0 split: option.splits del: upt_Suc)
qed

lemma batch_loop_responses:
  "batch_loop w msgs acc
     = (acc @ List.map_filter (response_at w msgs) [0..<length msgs], world_after w msgs)"
proof (induction msgs arbitrary: w acc)
  case Nil
  then show ?case by (simp add: List.map_filter_def)
next
  case (Cons m ms)
  show ?case
    by (cases "handleMessage w m")
       (auto simp: Cons.IH map_filter_upt_Cons simp del: upt_Suc split: option.splits)
qed

lemma map_filter_empty_iff:
  "List.map_filter f xs = [] \<longleftrightarrow> (\<forall>x \<in> set xs. f x = None)"
  by (auto simp: List.map_filter_def filter_empty_conv)

lemma summarize_context_frame:
  "snd (summarize_context w rid args)
     = w\<lparr>fetched := fetched (snd (summarize_context w rid args)),
          logged := logged (snd (summarize_context w rid args))\<rparr>"
  by (auto simp: summarize_context_def Let_def log_def pushSummaryToDocWebhook_def fetch_def
           split: sum.splits prod.splits option.splits fetch_outcome.splits push_result.splits)

lemma tools_call_frame:
  "snd (tools_call w rid envelope)
     = w\<lparr>fetched := fetched (snd (tools_call w rid envelope)),
          logged := logged (snd (tools_call w rid envelope))\<rparr>"
  using summarize_context_frame by (auto simp: tools_call_def Let_def log_def)

lemma handleMessage_frame:
  "snd (handleMessage w m)
     = w\<lparr>fetched := fetched (snd (handleMessage w m)), logged := logged (snd (handleMessage w m))\<rparr>"
  using tools_call_frame by (auto simp: handleMessage_def Let_def log_def split: json.splits)

lemma world_after_frame:
  "world_after w msgs
     = w\<lparr>fetched := fetched (world_after w msgs), logged := logged (world_after w msgs)\<rparr>"
proof (induction msgs arbitrary: w)
  case Nil
  then show ?case by simp
next
  case (Cons m ms)
  have "world_after w (m # ms) = world_after (snd (handleMessage w m)) ms" by simp
  also have "\<dots> = (snd (handleMessage w m))\<lparr>fetched := fetched (world_after w (m # ms)),
                          logged := logged (world_after w (m # ms))\<rparr>"
    using Cons.IH[of "snd (handleMessage w m)"] by simp
  also have "\<dots> = w\<lparr>fetched := fetched (world_after w (m # ms)),
                          logged := logged (world_after w (m # ms))\<rparr>"
    by (subst handleMessage_frame) simp
  finally show ?case .
qed

text \<open>
  Claim C8. For a body that is an array, the handler answers 204 without content when no
  element produces a response; otherwise it answers 200 with the array of the responses
  that are not null, in the order of their elements. The response of an element is what
  \<open>handleMessage\<close> answers to that element by itself, in the world left by the elements
  before it, and the world after the request is the one left by handling the elements in
  array order. Handling elements only adds to the calls issued and to the log: the
  configuration, the network and the clock are the same for every element.
\<close>

theorem batch_processing:
  "fst (POST w (Some (JArr msgs)))
     = (if \<forall>i < length msgs. response_at w msgs i = None then NoContent 204
        else JsonBody 200 (JArr (List.map_filter (response_at w msgs) [0..<length msgs])))
   \<and> snd (POST w (Some (JArr msgs))) = world_after w msgs
   \<and> world_after w msgs
       = w\<lparr>fetched := fetched (world_after w msgs), logged := logged (world_after w msgs)\<rparr>"
proof -
  have "List.map_filter (response_at w msgs) [0..<length msgs] = []
      \<longleftrightarrow> (\<forall>i < length msgs. response_at w msgs i = None)"
    by (auto simp: map_filter_empty_iff)
  then show ?thesis
    using world_after_frame[of w msgs]
    by (simp add: POST_def batch_loop_responses)
qed


text \<open>
  C8 at the batch of an \<open>initialized\<close> notification and a \<open>tools/list\<close> request with id 1,
  and at a batch of two notifications.
\<close>

theorem batch_processing_witness:
  "fst (POST unconfigured
          (Some (JArr [JObj [(''jsonrpc'', JStr ''2.0''), (''method'', JStr ''initialized'')],
                       JObj [(''jsonrpc'', JStr ''2.0''), (''id'', JNum 1),
                             (''method'', JStr ''tools/list'')]])))
     = JsonBody 200 (JArr [makeResult (JNum 1) (JObj [(''tools'', JArr TOOL_DEFS)])])
   \<and> fst (POST unconfigured
          (Some (JArr [JObj [(''jsonrpc'', JStr ''2.0''), (''method'', JStr ''initialized'')],
                       JObj [(''jsonrpc'', JStr ''2.0''), (''method'', JStr ''ping'')]])))
     = NoContent 204"
proof (intro conjI)
  let ?a = "JObj [(''jsonrpc'', JStr ''2.0''), (''method'', JStr ''initialized'')]"
  let ?b = "JObj [(''jsonrpc'', JStr ''2.0''), (''id'', JNum 1), (''method'', JStr ''tools/list'')]"
  let ?c = "JObj [(''jsonrpc'', JStr ''2.0''), (''method'', JStr ''ping'')]"
  have a: "response_at unconfigured [?a, ?b] 0 = None"
    by (simp add: response_at_def handleMessage_def)
  have b: "response_at unconfigured [?a, ?b] (Suc 0)
      = Some (makeResult (JNum 1) (JObj [(''tools'', JArr TOOL_DEFS)]))"
    by (simp add: response_at_def handleMessage_def coerceJsonRpcId_def)
  have upt2: "[0..<length [?a, ?b]] = [0, Suc 0]"
    by (simp add: upt_rec)
  show "fst (POST unconfigured (Some (JArr [?a, ?b])))
      = JsonBody 200 (JArr [makeResult (JNum 1) (JObj [(''tools'', JArr TOOL_DEFS)])])"
    using batch_processing[of unconfigured "[?a, ?b]"] a b
    unfolding upt2 by (auto simp: List.map_filter_simps)
  have c: "response_at unconfigured [?a, ?c] 0 = None"
    by (simp add: response_at_def handleMessage_def)
  have d: "response_at unconfigured [?a, ?c] (Suc 0) = None"
    by (simp add: response_at_def handleMessage_def)
  have "\<forall>i < length [?a, ?c]. response_at unconfigured [?a, ?c] i = None"
    using c d by (simp add: less_Suc_eq)
  then show "fst (POST unconfigured (Some (JArr [?a, ?c]))) = NoContent 204"
    using batch_processing[of unconfigured "[?a, ?c]"] by simp
qed

section \<open>Properties of the validator\<close>

text \<open>
  Claim C1 says that an input carrying an undeclared property is rejected. The schemas are
  plain \<open>z.object\<close> schemas, which drop undeclared properties instead of reporting them,
  while the tool catalogue advertises \<open>additionalProperties: false\<close> for every one of
  these objects. The arguments below carry an undeclared property at the top level, one
  inside \<open>context\<close> and one inside an item of \<open>risks\<close>; validation succeeds and the three
  properties are gone from the validated request.
\<close>

theorem unknown_properties_accepted:
  "safeParse
     (JObj [(''context'',
               JObj [(''summary'', JStr ''x''),
                     (''risks'', JArr [JObj [(''risk'', JStr ''r''), (''severity'', JStr ''low''),
                                             (''colour'', JStr ''red'')]]),
                     (''mood'', JBool True)]),
            (''output_format'', JStr ''memo''),
            (''priority'', JNum 1)])
   = Inr \<lparr>deal_id = None, deal_name = None, source_canvas_name = None,
           ctx = \<lparr>summary = ''x'', key_points = [], open_questions = [], next_steps = [],
                  risks = [\<lparr>rk_risk = ''r'', rk_severity = Low, rk_mitigation = None\<rparr>],
                  stakeholders = [], evidence = [], last_updated = None\<rparr>,
           output_format = Memo, doc_title = None\<rparr>"
  by code_simp

text \<open>
  Claim C2 says that a string consisting only of white space is rejected. The schema named
  \<open>trimmedString\<close> is \<open>z.string().min(1)\<close>: it checks the length and does not trim. A
  summary of three spaces passes validation unchanged.
\<close>

theorem whitespace_string_accepted:
  "safeParse (JObj [(''context'', JObj [(''summary'', JStr ''   '')]),
                    (''output_format'', JStr ''memo'')])
   = Inr \<lparr>deal_id = None, deal_name = None, source_canvas_name = None,
           ctx = \<lparr>summary = ''   '', key_points = [], open_questions = [], next_steps = [],
                  risks = [], stakeholders = [], evidence = [], last_updated = None\<rparr>,
           output_format = Memo, doc_title = None\<rparr>"
  by code_simp

lemma issues_of_simps [simp]: "issues_of (Inl es) = es" "issues_of (Inr x) = []"
  by (simp_all add: issues_of_def)

lemma issues_of_both [simp]: "issues_of (both a b) = issues_of a @ issues_of b"
  by (cases a; cases b) simp_all

lemma field_ok_both: "field_ok p a \<Longrightarrow> field_ok p b \<Longrightarrow> field_ok p (both a b)"
  by (cases a; cases b) (auto simp: field_ok_def)

lemma field_ok_finish:
  assumes r: "field_ok p r" and h: "\<And>x. \<exists>y. h x = Inr y"
  shows "field_ok p (case r of Inl es \<Rightarrow> Inl es | Inr x \<Rightarrow> h x)"
proof (cases r)
  case (Inl es)
  then show ?thesis using r by (simp add: field_ok_def)
next
  case (Inr b)
  obtain y where "h b = Inr y" using h by blast
  with Inr show ?thesis by (simp add: field_ok_def)
qed

lemma path_ok_Key: "newline \<notin> set k \<Longrightarrow> path_ok q \<Longrightarrow> path_ok (Key k # q)"
  by (simp add: path_ok_def)

lemma sound_field:
  assumes "sound sch" "newline \<notin> set k"
  shows "field_ok p (sch (p @ [Key k]) v)"
proof -
  from assms(1) have a: "list_all (\<lambda>e. \<exists>q. path e = (p @ [Key k]) @ q \<and> path_ok q) (issues_of (sch (p @ [Key k]) v))"
    and b: "sch (p @ [Key k]) v \<noteq> Inl []"
    unfolding sound_def by blast+
  have "list_all (\<lambda>e. \<exists>q. path e = p @ q \<and> q \<noteq> [] \<and> path_ok q) (issues_of (sch (p @ [Key k]) v))"
    using a unfolding list_all_iff
  proof (intro ballI)
    fix e assume "\<forall>e\<in>set (issues_of (sch (p @ [Key k]) v)). \<exists>q. path e = (p @ [Key k]) @ q \<and> path_ok q"
      and "e \<in> set (issues_of (sch (p @ [Key k]) v))"
    then obtain q where "path e = (p @ [Key k]) @ q" "path_ok q" by blast
    then have "path e = p @ (Key k # q) \<and> Key k # q \<noteq> [] \<and> path_ok (Key k # q)"
      using assms(2) by (simp add: path_ok_Key)
    then show "\<exists>q. path e = p @ q \<and> q \<noteq> [] \<and> path_ok q" by blast
  qed
  with b show ?thesis by (simp add: field_ok_def)
qed

lemma field_ok_sound_at:
  "field_ok p r \<Longrightarrow> list_all (\<lambda>e. \<exists>q. path e = p @ q \<and> path_ok q) (issues_of r) \<and> r \<noteq> Inl []"
  by (auto simp: field_ok_def list_all_iff)

lemma invalid_type_here:
  "list_all (\<lambda>e. \<exists>q. path e = p @ q \<and> path_ok q) [invalid_type p expected v]"
  by (simp add: invalid_type_def path_ok_def)

lemma sound_trimmedString: "sound trimmedString"
  by (auto simp: sound_def trimmedString_def invalid_type_def path_ok_def split: option.splits json.splits)

lemma sound_dateString: "sound dateString"
  by (auto simp: sound_def dateString_def invalid_type_def path_ok_def split: option.splits json.splits)

lemma sound_z_enum: "sound (z_enum options)"
  by (auto simp: sound_def z_enum_def invalid_type_def path_ok_def split: option.splits json.splits)

lemma sound_optional:
  assumes "sound inner"
  shows "sound (optional inner)"
  unfolding sound_def
proof (intro allI)
  fix p v
  from assms have a: "list_all (\<lambda>e. \<exists>q. path e = p @ q \<and> path_ok q) (issues_of (inner p v))"
    and b: "inner p v \<noteq> Inl []"
    unfolding sound_def by blast+
  show "list_all (\<lambda>e. \<exists>q. path e = p @ q \<and> path_ok q) (issues_of (optional inner p v))
      \<and> optional inner p v \<noteq> Inl []"
    using a b by (cases v; cases "inner p v") (simp_all add: optional_def)
qed


lemma collect_ok:
  assumes "\<forall>r \<in> set rs. list_all P (issues_of r) \<and> r \<noteq> Inl []"
  shows "list_all P (issues_of (collect rs)) \<and> collect rs \<noteq> Inl []"
  using assms
proof (induction rs)
  case Nil
  then show ?case by simp
next
  case (Cons r rs)
  then have ih: "list_all P (issues_of (collect rs))" "collect rs \<noteq> Inl []"
    and r: "list_all P (issues_of r)" "r \<noteq> Inl []"
    by simp_all
  show ?case
    using ih r by (cases r; cases "collect rs") auto
qed

lemma path_ok_Index: "path_ok q \<Longrightarrow> path_ok (Index i # q)"
  by (simp add: path_ok_def)

lemma sound_z_array:
  assumes "sound elem"
  shows "sound (z_array elem)"
  unfolding sound_def
proof (intro allI)
  fix p v
  let ?P = "\<lambda>e. \<exists>q. path e = p @ q \<and> path_ok q"
  show "list_all ?P (issues_of (z_array elem p v)) \<and> z_array elem p v \<noteq> Inl []"
  proof (cases "\<exists>xs. v = Some (JArr xs)")
    case True
    then obtain xs where v: "v = Some (JArr xs)" by blast
    have "list_all ?P (issues_of (elem (p @ [Index i]) (Some x))) \<and> elem (p @ [Index i]) (Some x) \<noteq> Inl []"
      for i x
    proof -
      from assms have a: "list_all (\<lambda>e. \<exists>q. path e = (p @ [Index i]) @ q \<and> path_ok q)
            (issues_of (elem (p @ [Index i]) (Some x)))"
        and b: "elem (p @ [Index i]) (Some x) \<noteq> Inl []"
        unfolding sound_def by blast+
      have "?P e" if "e \<in> set (issues_of (elem (p @ [Index i]) (Some x)))" for e
      proof -
        from a that obtain q where "path e = (p @ [Index i]) @ q" "path_ok q"
          unfolding list_all_iff by blast
        then have "path e = p @ (Index i # q) \<and> path_ok (Index i # q)"
          by (simp add: path_ok_Index)
        then show ?thesis by blast
      qed
      with b show ?thesis unfolding list_all_iff by blast
    qed
    then have "\<forall>r \<in> set (map (\<lambda>(i, x). elem (p @ [Index i]) (Some x)) (enumerate 0 xs)).
        list_all ?P (issues_of r) \<and> r \<noteq> Inl []"
      by auto
    from collect_ok[OF this] show ?thesis
      by (simp add: z_array_def v)
  next
    case False
    then have "z_array elem p v = Inl [invalid_type p ''array'' v]"
      by (auto simp: z_array_def split: option.splits json.splits)
    then show ?thesis using invalid_type_here[of p "''array''" v] by simp
  qed
qed

lemma sound_array_with_default:
  assumes "sound elem"
  shows "sound (array_with_default elem)"
  unfolding sound_def
proof (intro allI)
  fix p v
  let ?v = "case v of None \<Rightarrow> Some (JArr []) | Some x \<Rightarrow> Some x"
  from sound_z_array[OF assms]
  have a: "list_all (\<lambda>e. \<exists>q. path e = p @ q \<and> path_ok q) (issues_of (z_array elem p ?v))"
    and b: "z_array elem p ?v \<noteq> Inl []"
    unfolding sound_def by blast+
  have "?v \<noteq> None" by (cases v) simp_all
  then obtain x where x: "?v = Some x" by blast
  show "list_all (\<lambda>e. \<exists>q. path e = p @ q \<and> path_ok q) (issues_of (array_with_default elem p v))
      \<and> array_with_default elem p v \<noteq> Inl []"
    using a b unfolding array_with_default_def z_default_def optional_def x
    by (cases "z_array elem p (Some x)") simp_all
qed

lemma sound_object:
  assumes "\<And>p props. field_ok p (S p (Some (JObj props)))"
    and "\<And>p v. \<not> isObject v \<Longrightarrow> S p v = Inl [invalid_type p ''object'' v]"
  shows "sound S"
  unfolding sound_def
proof (intro allI)
  fix p v
  show "list_all (\<lambda>e. \<exists>q. path e = p @ q \<and> path_ok q) (issues_of (S p v)) \<and> S p v \<noteq> Inl []"
  proof (cases "isObject v")
    case True
    then obtain props where "v = Some (JObj props)"
      by (auto simp: isObject_def split: option.splits json.splits)
    then show ?thesis using field_ok_sound_at[OF assms(1), of p props] by simp
  next
    case False
    then show ?thesis using assms(2)[of v p] invalid_type_here[of p "''object''" v] by simp
  qed
qed

lemmas field_intros = field_ok_finish field_ok_both sound_field sound_optional sound_trimmedString
  sound_dateString sound_z_enum sound_array_with_default

lemma openQuestionSchema_fields: "field_ok p (openQuestionSchema p (Some (JObj props)))"
  unfolding openQuestionSchema_def option.case json.case
  by (intro field_intros) (simp_all add: newline_def split_beta)

lemma sound_openQuestionSchema: "sound openQuestionSchema"
proof (rule sound_object[of openQuestionSchema])
  show "field_ok p (openQuestionSchema p (Some (JObj props)))" for p props
    by (rule openQuestionSchema_fields)
  show "openQuestionSchema p v = Inl [invalid_type p ''object'' v]" if "\<not> isObject v" for p v
    using that by (auto simp: openQuestionSchema_def isObject_def split: option.splits json.splits)
qed

lemma nextStepSchema_fields: "field_ok p (nextStepSchema p (Some (JObj props)))"
  unfolding nextStepSchema_def option.case json.case
  by (intro field_intros) (simp_all add: newline_def split_beta)

lemma sound_nextStepSchema: "sound nextStepSchema"
proof (rule sound_object[of nextStepSchema])
  show "field_ok p (nextStepSchema p (Some (JObj props)))" for p props
    by (rule nextStepSchema_fields)
  show "nextStepSchema p v = Inl [invalid_type p ''object'' v]" if "\<not> isObject v" for p v
    using that by (auto simp: nextStepSchema_def isObject_def split: option.splits json.splits)
qed

lemma riskSchema_fields: "field_ok p (riskSchema p (Some (JObj props)))"
  unfolding riskSchema_def option.case json.case
  by (intro field_intros) (simp_all add: newline_def split_beta)

lemma sound_riskSchema: "sound riskSchema"
proof (rule sound_object[of riskSchema])
  show "field_ok p (riskSchema p (Some (JObj props)))" for p props
    by (rule riskSchema_fields)
  show "riskSchema p v = Inl [invalid_type p ''object'' v]" if "\<not> isObject v" for p v
    using that by (auto simp: riskSchema_def isObject_def split: option.splits json.splits)
qed

lemma stakeholderSchema_fields: "field_ok p (stakeholderSchema p (Some (JObj props)))"
  unfolding stakeholderSchema_def option.case json.case
  by (intro field_intros) (simp_all add: newline_def split_beta)

lemma sound_stakeholderSchema: "sound stakeholderSchema"
proof (rule sound_object[of stakeholderSchema])
  show "field_ok p (stakeholderSchema p (Some (JObj props)))" for p props
    by (rule stakeholderSchema_fields)
  show "stakeholderSchema p v = Inl [invalid_type p ''object'' v]" if "\<not> isObject v" for p v
    using that by (auto simp: stakeholderSchema_def isObject_def split: option.splits json.splits)
qed

lemma evidenceSchema_fields: "field_ok p (evidenceSchema p (Some (JObj props)))"
  unfolding evidenceSchema_def option.case json.case
  by (intro field_intros) (simp_all add: newline_def split_beta)

lemma sound_evidenceSchema: "sound evidenceSchema"
proof (rule sound_object[of evidenceSchema])
  show "field_ok p (evidenceSchema p (Some (JObj props)))" for p props
    by (rule evidenceSchema_fields)
  show "evidenceSchema p v = Inl [invalid_type p ''object'' v]" if "\<not> isObject v" for p v
    using that by (auto simp: evidenceSchema_def isObject_def split: option.splits json.splits)
qed

lemmas item_intros = sound_openQuestionSchema sound_nextStepSchema sound_riskSchema
  sound_stakeholderSchema sound_evidenceSchema

lemma contextSchema_fields: "field_ok p (contextSchema p (Some (JObj props)))"
  unfolding contextSchema_def option.case json.case
  by (intro field_intros item_intros) (simp_all add: newline_def split_beta)

lemma sound_contextSchema: "sound contextSchema"
proof (rule sound_object[of contextSchema])
  show "field_ok p (contextSchema p (Some (JObj props)))" for p props
    by (rule contextSchema_fields)
  show "contextSchema p v = Inl [invalid_type p ''object'' v]" if "\<not> isObject v" for p v
    using that by (auto simp: contextSchema_def isObject_def split: option.splits json.splits)
qed

lemma safeParse_fields: "field_ok [] (safeParse (JObj args))"
  unfolding safeParse_def summarizeInputSchema_def option.case json.case
  by (intro field_intros sound_contextSchema) (simp_all add: newline_def split_beta)


lemma handleMessage_summarize:
  assumes "map_of envelope ''jsonrpc'' = Some (JStr ''2.0'')"
    and "map_of envelope ''method'' = Some (JStr ''tools/call'')"
    and "map_of envelope ''id'' = Some v"
    and "map_of envelope ''params'' = Some (JObj params)"
    and "map_of params ''name'' = Some (JStr ''summarize_context'')"
  shows "handleMessage w (JObj envelope)
     = summarize_context w (coerceJsonRpcId v) (object_or_empty (map_of params ''arguments''))"
  using assms by (simp add: handleMessage_def tools_call_def Let_def object_or_empty_def)

lemma issue_line_one_line:
  assumes "path_ok (path e)" "newline \<notin> set (message e)"
  shows "newline \<notin> set (issue_line e)"
proof -
  have "newline \<notin> set (join ''.'' (map path_elem_str (path e)))"
    using assms(1) by (intro newline_notin_join) (simp_all add: path_ok_def list_all_iff newline_def)
  then show ?thesis
    using assms(2) by (simp add: issue_line_def Let_def) (simp add: newline_def)
qed

text \<open>
  Claim C5, amended. Take a \<open>tools/call\<close> of \<open>summarize_context\<close> (with
  \<open>jsonrpc: "2.0"\<close> and an id) whose arguments fail validation. No \<open>fetch\<close> is issued.
  The response is a tool-level result with \<open>isError: true\<close> whose text is the line
  \<open>Validation error:\<close> followed by one entry per violation, in order, separated by line
  breaks. There is at least one violation, every violation has a non-empty path, and its
  entry is \<open>- <path>: <message>\<close> with the path elements joined by dots. When no message
  contains a line break, the lines of the text are exactly the heading and one line per
  violation.
\<close>

theorem validation_failure_is_local:
  assumes "map_of envelope ''jsonrpc'' = Some (JStr ''2.0'')"
    and "map_of envelope ''method'' = Some (JStr ''tools/call'')"
    and "map_of envelope ''id'' = Some v"
    and "map_of envelope ''params'' = Some (JObj params)"
    and "map_of params ''name'' = Some (JStr ''summarize_context'')"
    and "safeParse (JObj (object_or_empty (map_of params ''arguments''))) = Inl errors"
  shows "fetched (snd (handleMessage w (JObj envelope))) = fetched w
       \<and> fst (handleMessage w (JObj envelope))
           = Some (makeResult (coerceJsonRpcId v)
                     (toolResult (''Validation error:'' @ [newline]
                                  @ join [newline] (map issue_line errors)) True))
       \<and> errors \<noteq> []
       \<and> (\<forall>e \<in> set errors.
             path e \<noteq> []
           \<and> issue_line e
               = ''- '' @ join ''.'' (map path_elem_str (path e)) @ '': '' @ message e)
       \<and> ((\<forall>e \<in> set errors. newline \<notin> set (message e)) \<longrightarrow>
             split_lines (''Validation error:'' @ [newline] @ join [newline] (map issue_line errors))
               = ''Validation error:'' # map issue_line errors)"
proof -
  note h = handleMessage_summarize[OF assms(1-5), of w]
  have ok: "field_ok [] (Inl errors :: SummarizeInput parsed)"
    using safeParse_fields[of "object_or_empty (map_of params ''arguments'')"] assms(6) by simp
  then have ne: "errors \<noteq> []" and paths: "\<forall>e \<in> set errors. path e \<noteq> [] \<and> path_ok (path e)"
    by (auto simp: field_ok_def list_all_iff)
  have 1: "fetched (snd (handleMessage w (JObj envelope))) = fetched w"
    unfolding h by (simp add: summarize_context_def assms(6) log_def)
  have 2: "fst (handleMessage w (JObj envelope))
           = Some (makeResult (coerceJsonRpcId v)
                     (toolResult (''Validation error:'' @ [newline]
                                  @ join [newline] (map issue_line errors)) True))"
    unfolding h by (simp add: summarize_context_def assms(6) formatZodError_def)
  have 3: "\<forall>e \<in> set errors.
             path e \<noteq> []
           \<and> issue_line e
               = ''- '' @ join ''.'' (map path_elem_str (path e)) @ '': '' @ message e"
    using paths by (simp add: issue_line_def)
  have 4: "split_lines (''Validation error:'' @ [newline] @ join [newline] (map issue_line errors))
               = ''Validation error:'' # map issue_line errors"
    if "\<forall>e \<in> set errors. newline \<notin> set (message e)"
  proof -
    have "\<forall>l \<in> set (map issue_line errors). newline \<notin> set l"
      using paths that issue_line_one_line by auto
    then have "split_lines (join [newline] (map issue_line errors)) = map issue_line errors"
      using ne by (intro split_lines_join) simp_all
    moreover have "newline \<notin> set ''Validation error:''" by (simp add: newline_def)
    ultimately show ?thesis
      using split_lines_append[of "''Validation error:''" "join [newline] (map issue_line errors)"]
      by simp
  qed
  from 1 2 ne 3 4 show ?thesis by blast
qed


text \<open>
  C5 at arguments without \<open>context\<close>, on a deployment whose sink is configured.
\<close>

theorem validation_failure_is_local_witness:
  "safeParse (JObj [(''output_format'', JStr ''memo'')])
     = Inl [\<lparr>path = [Key ''context''], message = ''Required''\<rparr>]
   \<and> fst (handleMessage (sink (Responded 200 None))
            (call_summarize [(''output_format'', JStr ''memo'')]))
     = Some (makeResult (JNum 1)
               (toolResult (''Validation error:'' @ [newline] @ ''- context: Required'') True))
   \<and> fetched (snd (handleMessage (sink (Responded 200 None))
                     (call_summarize [(''output_format'', JStr ''memo'')]))) = []
   \<and> split_lines (''Validation error:'' @ [newline] @ ''- context: Required'')
     = [''Validation error:'', ''- context: Required'']"
proof -
  have sp: "safeParse (JObj (object_or_empty (map_of
                [(''name'', JStr ''summarize_context''),
                 (''arguments'', JObj [(''output_format'', JStr ''memo'')])] ''arguments'')))
      = Inl [\<lparr>path = [Key ''context''], message = ''Required''\<rparr>]"
    by code_simp
  have il: "issue_line \<lparr>path = [Key ''context''], message = ''Required''\<rparr> = ''- context: Required''"
    by code_simp
  have nl: "newline \<notin> set ''Required''"
    by (simp add: newline_def)
  show ?thesis
    using validation_failure_is_local[of
        "[(''jsonrpc'', JStr ''2.0''), (''id'', JNum 1), (''method'', JStr ''tools/call''),
          (''params'', JObj [(''name'', JStr ''summarize_context''),
                             (''arguments'', JObj [(''output_format'', JStr ''memo'')])])]"
        "JNum 1"
        "[(''name'', JStr ''summarize_context''),
          (''arguments'', JObj [(''output_format'', JStr ''memo'')])]"
        "[\<lparr>path = [Key ''context''], message = ''Required''\<rparr>]"
        "sink (Responded 200 None)", OF _ _ _ _ _ sp] sp il nl
    by (simp add: call_summarize_def request_def coerceJsonRpcId_def object_or_empty_def sink_def)
qed

text \<open>
  Claim C5 as stated has every violation on one line, each line starting with the path.
  zod quotes a rejected enum value in its message, so for an \<open>output_format\<close> that
  contains a line break the single violation spreads over two lines, and the second of
  them does not start with a path.
\<close>

theorem multi_line_violation_counterexample:
  "safeParse (JObj [(''context'', JObj [(''summary'', JStr ''x'')]),
                    (''output_format'', JStr (''a'' @ [newline] @ ''b''))])
     = Inl [\<lparr>path = [Key ''output_format''],
             message = ''Invalid enum value. Expected '' @ [CHR 0x27] @ ''exec_bullets''
                       @ [CHR 0x27] @ '' | '' @ [CHR 0x27] @ ''se_deal_update'' @ [CHR 0x27]
                       @ '' | '' @ [CHR 0x27] @ ''memo'' @ [CHR 0x27] @ '', received ''
                       @ [CHR 0x27] @ ''a'' @ [newline] @ ''b'' @ [CHR 0x27]\<rparr>]
   \<and> fst (handleMessage unconfigured
            (call_summarize [(''context'', JObj [(''summary'', JStr ''x'')]),
                             (''output_format'', JStr (''a'' @ [newline] @ ''b''))]))
     = Some (makeResult (JNum 1)
               (toolResult
                  (''Validation error:'' @ [newline]
                   @ ''- output_format: Invalid enum value. Expected '' @ [CHR 0x27]
                   @ ''exec_bullets'' @ [CHR 0x27] @ '' | '' @ [CHR 0x27] @ ''se_deal_update''
                   @ [CHR 0x27] @ '' | '' @ [CHR 0x27] @ ''memo'' @ [CHR 0x27] @ '', received ''
                   @ [CHR 0x27] @ ''a'' @ [newline] @ ''b'' @ [CHR 0x27]) True))
   \<and> split_lines
        (''Validation error:'' @ [newline]
         @ ''- output_format: Invalid enum value. Expected '' @ [CHR 0x27]
         @ ''exec_bullets'' @ [CHR 0x27] @ '' | '' @ [CHR 0x27] @ ''se_deal_update''
         @ [CHR 0x27] @ '' | '' @ [CHR 0x27] @ ''memo'' @ [CHR 0x27] @ '', received ''
         @ [CHR 0x27] @ ''a'' @ [newline] @ ''b'' @ [CHR 0x27])
     = [''Validation error:'',
        ''- output_format: Invalid enum value. Expected '' @ [CHR 0x27]
         @ ''exec_bullets'' @ [CHR 0x27] @ '' | '' @ [CHR 0x27] @ ''se_deal_update''
         @ [CHR 0x27] @ '' | '' @ [CHR 0x27] @ ''memo'' @ [CHR 0x27] @ '', received ''
         @ [CHR 0x27] @ ''a'',
        ''b'' @ [CHR 0x27]]"
  by code_simp

section \<open>Properties of the \<open>summarize_context\<close> tool\<close>

lemma str_includes_iff: "str_includes hay needle \<longleftrightarrow> sublist needle hay"
  by (induction hay) (auto simp: sublist_Cons_right)

lemma count_sublist:
  assumes "sublist xs ys"
  shows "length (filter P xs) \<le> length (filter P ys)"
proof -
  from assms obtain ps ss where "ys = ps @ xs @ ss" by (auto simp: sublist_def)
  then show ?thesis by simp
qed

lemma formatSummary_two_breaks:
  "\<exists>a b c. formatSummary d = a @ newline # b @ newline # c"
proof -
  have "\<exists>rest. formatSummary d
      = ''## Deal Summary'' @ newline # (''- Deal: '' @ clean (case deal_name d of
                         Some n \<Rightarrow> n
                       | None \<Rightarrow> (case deal_id d of Some x \<Rightarrow> x | None \<Rightarrow> ''Unspecified'')))
        @ newline # rest"
    by (simp add: formatSummary_def Let_def)
  then show ?thesis by blast
qed

lemma summary_not_in_short_text:
  assumes "length (filter (\<lambda>c. c = newline) t) \<le> 1"
  shows "\<not> str_includes t (formatSummary d)"
proof
  assume "str_includes t (formatSummary d)"
  then have "sublist (formatSummary d) t" by (simp add: str_includes_iff)
  from count_sublist[OF this, of "\<lambda>c. c = newline"]
  have le: "length (filter (\<lambda>c. c = newline) (formatSummary d)) \<le> 1"
    using assms by simp
  obtain a b c where "formatSummary d = a @ newline # b @ newline # c"
    using formatSummary_two_breaks by blast
  then have "2 \<le> length (filter (\<lambda>c. c = newline) (formatSummary d))" by simp
  with le show False by simp
qed


text \<open>
  Claim C9, amended. Take a \<open>tools/call\<close> of \<open>summarize_context\<close> (with
  \<open>jsonrpc: "2.0"\<close> and an id) whose arguments pass validation. The title is
  \<open>doc_title\<close> if present, else \<open>deal_name\<close>, else \<open>deal_id\<close>, else
  \<open>CanvasETL Summary\<close>, and the rendered summary is handed to the pusher. If the push
  succeeded the text of the result is \<open>Doc push: ok\<close>, a line break, and
  \<open>Title: <title>\<close>; if it failed the text is \<open>Doc push: failed\<close>, a line break, and
  the pusher's diagnostic, without the title. \<open>isError\<close> is false exactly when the push
  succeeded. The only \<open>fetch\<close> calls are those of the pusher. When the push succeeded and
  the title has no line break, the text does not contain the rendered summary.
\<close>

theorem summarize_result_text:
  assumes "map_of envelope ''jsonrpc'' = Some (JStr ''2.0'')"
    and "map_of envelope ''method'' = Some (JStr ''tools/call'')"
    and "map_of envelope ''id'' = Some v"
    and "map_of envelope ''params'' = Some (JObj params)"
    and "map_of params ''name'' = Some (JStr ''summarize_context'')"
    and "safeParse (JObj (object_or_empty (map_of params ''arguments''))) = Inr data"
  shows "let title = (case doc_title data of
                        Some t \<Rightarrow> t
                      | None \<Rightarrow> (case deal_name data of
                                   Some n \<Rightarrow> n
                                 | None \<Rightarrow> (case deal_id data of
                                              Some d \<Rightarrow> d
                                            | None \<Rightarrow> ''CanvasETL Summary'')));
             push = pushSummaryToDocWebhook w title (formatSummary data);
             text = (case fst push of
                       PushOk \<Rightarrow> ''Doc push: ok'' @ [newline] @ ''Title: '' @ title
                     | PushFailed error \<Rightarrow> ''Doc push: failed'' @ [newline] @ error)
         in fst (handleMessage w (JObj envelope))
              = Some (makeResult (coerceJsonRpcId v) (toolResult text (fst push \<noteq> PushOk)))
          \<and> fetched (snd (handleMessage w (JObj envelope))) = fetched (snd push)
          \<and> (fst push = PushOk \<and> newline \<notin> set title \<longrightarrow>
                \<not> str_includes text (formatSummary data))"
proof -
  define title where "title = (case doc_title data of
                        Some t \<Rightarrow> t
                      | None \<Rightarrow> (case deal_name data of
                                   Some n \<Rightarrow> n
                                 | None \<Rightarrow> (case deal_id data of
                                              Some d \<Rightarrow> d
                                            | None \<Rightarrow> ''CanvasETL Summary'')))"
  define push where "push = pushSummaryToDocWebhook w title (formatSummary data)"
  note h = handleMessage_summarize[OF assms(1-5), of w]
  have sc: "summarize_context w (coerceJsonRpcId v) (object_or_empty (map_of params ''arguments''))
      = (Some (makeResult (coerceJsonRpcId v)
                 (toolResult
                    (case fst push of
                       PushOk \<Rightarrow> ''Doc push: ok'' @ [newline] @ ''Title: '' @ title
                     | PushFailed error \<Rightarrow> ''Doc push: failed'' @ [newline] @ error)
                    (fst push \<noteq> PushOk))),
         log Info ''mcp.tools.call.summarize_context''
           (case fst push of
              PushOk \<Rightarrow> log Info ''mcp.doc_push.ok'' (snd push)
            | PushFailed error \<Rightarrow> log Error ''mcp.doc_push.failed'' (snd push)))"
    unfolding summarize_context_def assms(6) push_def title_def
    by (simp add: Let_def case_prod_beta)
  have 1: "fst (handleMessage w (JObj envelope))
      = Some (makeResult (coerceJsonRpcId v)
                (toolResult
                   (case fst push of
                      PushOk \<Rightarrow> ''Doc push: ok'' @ [newline] @ ''Title: '' @ title
                    | PushFailed error \<Rightarrow> ''Doc push: failed'' @ [newline] @ error)
                   (fst push \<noteq> PushOk)))"
    unfolding h sc by simp
  have 2: "fetched (snd (handleMessage w (JObj envelope))) = fetched (snd push)"
    unfolding h sc by (cases "fst push") (simp_all add: log_def)
  have 3: "\<not> str_includes (''Doc push: ok'' @ [newline] @ ''Title: '' @ title) (formatSummary data)"
    if "newline \<notin> set title"
  proof (rule summary_not_in_short_text)
    have "filter (\<lambda>c. c = newline) title = []"
      using that by (auto simp: filter_empty_conv)
    then show "length (filter (\<lambda>c. c = newline) (''Doc push: ok'' @ [newline] @ ''Title: '' @ title)) \<le> 1"
      by (simp add: newline_def)
  qed
  show ?thesis
    unfolding Let_def title_def[symmetric] push_def[symmetric]
    using 1 2 3 by simp
qed


text \<open>
  C9 at the minimal request, on a deployment whose sink answers with a redirect.
\<close>

theorem summarize_result_text_witness:
  "safeParse (JObj minimal_args) = Inr minimal_input
   \<and> fst (handleMessage (sink (Responded 302 None)) (call_summarize minimal_args))
     = Some (makeResult (JNum 1)
               (toolResult (''Doc push: ok'' @ [newline] @ ''Title: CanvasETL Summary'') False))
   \<and> fetched (snd (handleMessage (sink (Responded 302 None)) (call_summarize minimal_args)))
     = [webhook_call (''https://sink.example/exec'', ''s3cret'') ''CanvasETL Summary''
          (formatSummary minimal_input)]
   \<and> \<not> str_includes (''Doc push: ok'' @ [newline] @ ''Title: CanvasETL Summary'')
         (formatSummary minimal_input)"
proof -
  have sp: "safeParse (JObj (object_or_empty (map_of
                [(''name'', JStr ''summarize_context''), (''arguments'', JObj minimal_args)]
                ''arguments'')))
      = Inr minimal_input"
    by code_simp
  have push: "pushSummaryToDocWebhook (sink (Responded 302 None)) ''CanvasETL Summary''
        (formatSummary minimal_input)
      = (PushOk, (sink (Responded 302 None))\<lparr>fetched :=
           [webhook_call (''https://sink.example/exec'', ''s3cret'') ''CanvasETL Summary''
              (formatSummary minimal_input)]\<rparr>)"
    by (simp add: pushSummaryToDocWebhook_def getDocWebhookConfig_def sink_def fetch_def)
  have title: "(case doc_title minimal_input of
                  Some t \<Rightarrow> t
                | None \<Rightarrow> (case deal_name minimal_input of
                             Some n \<Rightarrow> n
                           | None \<Rightarrow> (case deal_id minimal_input of
                                        Some d \<Rightarrow> d
                                      | None \<Rightarrow> ''CanvasETL Summary'')))
      = ''CanvasETL Summary''"
    by (simp add: minimal_input_def)
  have nl: "newline \<notin> set ''CanvasETL Summary''"
    by (simp add: newline_def)
  show ?thesis
    using summarize_result_text[of
        "[(''jsonrpc'', JStr ''2.0''), (''id'', JNum 1), (''method'', JStr ''tools/call''),
          (''params'', JObj [(''name'', JStr ''summarize_context''),
                             (''arguments'', JObj minimal_args)])]"
        "JNum 1"
        "[(''name'', JStr ''summarize_context''), (''arguments'', JObj minimal_args)]"
        minimal_input "sink (Responded 302 None)", OF _ _ _ _ _ sp] sp nl
    unfolding title Let_def push
    by (simp add: call_summarize_def request_def coerceJsonRpcId_def object_or_empty_def)
qed

text \<open>
  Claim C9 as stated has the text always hold the title and never the rendered summary.
  Against a sink that answers 500 and echoes what it was sent, the text of the result
  holds the rendered summary (inside the diagnostic) and does not hold the title. And a
  caller who passes the rendered summary of the request as its \<open>doc_title\<close> gets it back
  in the text of a successful push.
\<close>

theorem summary_in_result_counterexample:
  "fst (handleMessage echo_sink (call_summarize minimal_args))
     = Some (makeResult (JNum 1)
               (toolResult (''Doc push: failed'' @ [newline] @ ''Webhook HTTP 500: ''
                            @ formatSummary minimal_input) True))
   \<and> str_includes (''Doc push: failed'' @ [newline] @ ''Webhook HTTP 500: ''
                   @ formatSummary minimal_input) (formatSummary minimal_input)
   \<and> \<not> str_includes (''Doc push: failed'' @ [newline] @ ''Webhook HTTP 500: ''
                     @ formatSummary minimal_input) ''CanvasETL Summary''
   \<and> safeParse (JObj (minimal_args @ [(''doc_title'', JStr (formatSummary minimal_input))]))
     = Inr (minimal_input\<lparr>doc_title := Some (formatSummary minimal_input)\<rparr>)
   \<and> formatSummary (minimal_input\<lparr>doc_title := Some (formatSummary minimal_input)\<rparr>)
     = formatSummary minimal_input
   \<and> fst (handleMessage (sink (Responded 200 None))
            (call_summarize (minimal_args @ [(''doc_title'', JStr (formatSummary minimal_input))])))
     = Some (makeResult (JNum 1)
               (toolResult (''Doc push: ok'' @ [newline] @ ''Title: ''
                            @ formatSummary minimal_input) False))
   \<and> str_includes (''Doc push: ok'' @ [newline] @ ''Title: '' @ formatSummary minimal_input)
        (formatSummary minimal_input)"
  by code_simp

end
